theory Spec2Isabelle
  imports Main "HOL-Library.AList"
begin

section \<open>JavaScript values\<close>

text \<open>
  A value that a \<^verbatim>\<open>throw\<close> or a rejected promise carries. The sources only ever ask
  \<^verbatim>\<open>err instanceof Error ? err.message : ...\<close>, so a thrown value is either an
  \<^verbatim>\<open>Error\<close> with its message, or anything else, kept as the text \<^verbatim>\<open>String(err)\<close> gives.
  Awaiting a promise gives \<open>Inl\<close> of the thrown value when it rejects.
\<close>

datatype thrown = JsError string | JsOther string

definition then_do :: "thrown + 'a \<Rightarrow> ('a \<Rightarrow> thrown + 'b) \<Rightarrow> thrown + 'b" where
  "then_do p f = (case p of Inl e \<Rightarrow> Inl e | Inr v \<Rightarrow> f v)"

definition try_catch :: "thrown + 'a \<Rightarrow> (thrown \<Rightarrow> thrown + 'a) \<Rightarrow> thrown + 'a" where
  "try_catch body handler = (case body of Inl e \<Rightarrow> handler e | Inr v \<Rightarrow> Inr v)"

text \<open>
  Parsed JSON. Numbers are the integers (a JSON number with a fraction is outside the
  model); an object is its property table. \<open>None\<close> stands for \<^verbatim>\<open>undefined\<close>.
\<close>

datatype json =
    JNull
  | JBool bool
  | JNum int
  | JStr string
  | JArr "json list"
  | JObj "(string \<times> json) list"

text \<open>
  \<^verbatim>\<open>v.k\<close> on a value that is neither \<^verbatim>\<open>null\<close> nor \<^verbatim>\<open>undefined\<close>. None of the keys the
  sources read (\<^verbatim>\<open>items\<close>, \<^verbatim>\<open>pagination\<close>, \<^verbatim>\<open>has_more\<close>, \<^verbatim>\<open>next_page\<close>, \<^verbatim>\<open>detail\<close>)
  is a property of a string, number, boolean or array.
\<close>

fun get_prop :: "string \<Rightarrow> json \<Rightarrow> json option" where
  "get_prop k (JObj kvs) = map_of kvs k"
| "get_prop k _ = None"

text \<open>\<^verbatim>\<open>v?.k\<close>: \<^verbatim>\<open>undefined\<close> when \<^verbatim>\<open>v\<close> is \<^verbatim>\<open>null\<close> or \<^verbatim>\<open>undefined\<close>.\<close>

definition opt_prop :: "string \<Rightarrow> json option \<Rightarrow> json option" where
  "opt_prop k v = (case v of None \<Rightarrow> None | Some JNull \<Rightarrow> None | Some w \<Rightarrow> get_prop k w)"

fun truthy :: "json \<Rightarrow> bool" where
  "truthy JNull = False"
| "truthy (JBool b) = b"
| "truthy (JNum n) = (n \<noteq> 0)"
| "truthy (JStr s) = (s \<noteq> [])"
| "truthy (JArr xs) = True"
| "truthy (JObj kvs) = True"

definition digit_char :: "nat \<Rightarrow> char" where
  "digit_char d =
     (if d = 0 then CHR ''0'' else if d = 1 then CHR ''1'' else if d = 2 then CHR ''2''
      else if d = 3 then CHR ''3'' else if d = 4 then CHR ''4'' else if d = 5 then CHR ''5''
      else if d = 6 then CHR ''6'' else if d = 7 then CHR ''7'' else if d = 8 then CHR ''8''
      else CHR ''9'')"

text \<open>
  \<^verbatim>\<open>String(n)\<close> and \<^verbatim>\<open>`${n}`\<close> for an integer \<^verbatim>\<open>n\<close>: its decimal digits. (This is what
  JavaScript prints for the integers of magnitude below \<open>10\<^sup>2\<^sup>1\<close>, which covers every status,
  page and identifier here; from there on it prints an exponent.)
\<close>

fun show_nat :: "nat \<Rightarrow> string" where
  "show_nat n =
     (if n < 10 then [digit_char n] else show_nat (n div 10) @ [digit_char (n mod 10)])"

definition show_int :: "int \<Rightarrow> string" where
  "show_int i = (if i < 0 then CHR ''-'' # show_nat (nat (- i)) else show_nat (nat i))"

text \<open>
  \<^verbatim>\<open>String(v)\<close> of a parsed JSON value: a string is itself, an array joins its elements
  with commas (\<^verbatim>\<open>null\<close> elements as the empty string), an object is \<^verbatim>\<open>[object Object]\<close>.
\<close>

fun js_String :: "json \<Rightarrow> string" and js_join :: "json list \<Rightarrow> string" where
  "js_String JNull = ''null''"
| "js_String (JBool b) = (if b then ''true'' else ''false'')"
| "js_String (JNum n) = show_int n"
| "js_String (JStr s) = s"
| "js_String (JArr xs) = js_join xs"
| "js_String (JObj kvs) = ''[object Object]''"
| "js_join [] = []"
| "js_join [x] = (case x of JNull \<Rightarrow> [] | _ \<Rightarrow> js_String x)"
| "js_join (x # y # ys) =
     (case x of JNull \<Rightarrow> [] | _ \<Rightarrow> js_String x) @ '','' @ js_join (y # ys)"

section \<open>HTTP responses\<close>

text \<open>
  What the sources read of a \<^verbatim>\<open>Response\<close>: \<^verbatim>\<open>ok\<close>, \<^verbatim>\<open>status\<close>, \<^verbatim>\<open>statusText\<close>, and the
  outcome of awaiting \<^verbatim>\<open>json()\<close> and \<^verbatim>\<open>text()\<close>. Awaiting \<^verbatim>\<open>fetch\<close> gives a response or
  rejects.
\<close>

record response =
  res_ok :: bool
  res_status :: int
  res_statusText :: string
  res_json :: "thrown + json"
  res_text :: "thrown + string"

record request_init =
  init_headers :: "(string \<times> string) list"

section \<open>The native fetch bridge (native.ts)\<close>

record envelope =
  ok :: bool
  status :: int
  statusText :: string
  data :: json

text \<open>
  \<^verbatim>\<open>fetchMagApi(_, url, options)\<close>: \<open>fetch\<close> is the network as the privileged process
  sees it. The \<^verbatim>\<open>try\<close> block awaits \<^verbatim>\<open>fetch\<close>, then \<^verbatim>\<open>res.json()\<close>; the \<^verbatim>\<open>catch\<close> block
  builds the failure record from whatever was thrown.
\<close>

definition fetchMagApi ::
  "('u \<Rightarrow> 'o \<Rightarrow> thrown + response) \<Rightarrow> 'u \<Rightarrow> 'o \<Rightarrow> thrown + envelope" where
  "fetchMagApi fetch url options =
     try_catch
       (then_do (fetch url options) (\<lambda>res.
          then_do (res_json res) (\<lambda>d.
            Inr \<lparr>ok = res_ok res, status = res_status res,
                 statusText = res_statusText res, data = d\<rparr>)))
       (\<lambda>error.
          Inr \<lparr>ok = False, status = - 1, statusText = ''Network Error'',
               data = JObj [(''error'',
                 JStr (case error of JsError m \<Rightarrow> m | JsOther s \<Rightarrow> s))]\<rparr>)"

section \<open>The picker-tab view (MamView of both picker-tab plugins)\<close>

text \<open>
  A search query is a JavaScript string, kept as its UTF-16 code units so that
  \<^verbatim>\<open>trim()\<close> can be modelled on every string.
\<close>

type_synonym ustring = "nat list"

record url =
  url_path :: string
  url_q :: ustring
  url_params :: "(string \<times> string) list"

text \<open>
  A request in flight: the \<^verbatim>\<open>AbortController\<close> the effect created for it (controllers
  are numbered as they are created) and what the handlers' closure captured.
\<close>

record inflight =
  ctl :: nat
  at_page :: int
  at_url :: url
  at_key :: string

text \<open>
  The React state of \<^verbatim>\<open>MamView\<close> that the result fetch reads and writes, with
  \<^verbatim>\<open>abortRef\<close>, the set of controllers whose signal is aborted, and the log of the
  requests the view has issued.
\<close>

record mam_view =
  debouncedQuery :: ustring
  items :: "json list"
  error :: "string option"
  loading :: bool
  page :: int
  hasMore :: bool
  abortRef :: "nat option"
  aborted :: "nat set"
  next_controller :: nat
  requests :: "inflight list"

datatype view_mode = Categories | All | ListItems

record gen2_view = mam_view +
  viewMode :: view_mode
  selectedListId :: "int option"

text \<open>The message for a response that is not ok (both generations).\<close>

definition status_message :: "int \<Rightarrow> string" where
  "status_message s =
     (if s = 401 then ''Invalid API key.'' else ''Request failed ('' @ show_int s @ '').'')"

text \<open>\<^verbatim>\<open>abortRef.current?.abort()\<close>\<close>

definition abort_current :: "'a mam_view_scheme \<Rightarrow> 'a mam_view_scheme" where
  "abort_current st =
     (case abortRef st of None \<Rightarrow> st | Some c \<Rightarrow> st\<lparr>aborted := insert c (aborted st)\<rparr>)"


definition gifs_url :: "ustring \<Rightarrow> int \<Rightarrow> url" where
  "gifs_url q pg =
     \<lparr>url_path = ''/api/gifs'', url_q = q,
      url_params = [(''limit'', ''20''), (''page'', show_int pg), (''nsfw'', ''false''),
                    (''visibility'', ''published'')]\<rparr>"

definition list_items_url :: "int \<Rightarrow> int \<Rightarrow> url" where
  "list_items_url lid pg =
     \<lparr>url_path = ''/api/gif-lists/'' @ show_int lid @ ''/items'', url_q = [],
      url_params = [(''limit'', ''20''), (''page'', show_int pg), (''nsfw'', ''false'')]\<rparr>"

definition no_key_message :: string where
  "no_key_message = ''Set your MAM API key in the plugin settings.''"

text \<open>
  The fetch effect of Generation 1 (deps \<^verbatim>\<open>[apiKey, debouncedQuery, page]\<close>). It returns
  the new state and the request it issued, if any; the request stands for the cleanup
  the effect returns.
\<close>

definition gen1_fetch_effect :: "string \<Rightarrow> mam_view \<Rightarrow> mam_view \<times> inflight option" where
  "gen1_fetch_effect apiKey st =
     (let st1 = abort_current st in
      if apiKey = [] then
        (st1\<lparr>loading := False, items := [], hasMore := False, error := Some no_key_message\<rparr>,
         None)
      else
        (let c = next_controller st1;
             r = \<lparr>ctl = c, at_page = page st1,
                  at_url = gifs_url (debouncedQuery st1) (page st1), at_key = apiKey\<rparr>
         in (st1\<lparr>next_controller := c + 1, abortRef := Some c, loading := True,
                  error := None, requests := requests st1 @ [r]\<rparr>, Some r)))"

text \<open>The fetch effect of Generation 2 (deps add \<^verbatim>\<open>selectedListId\<close> and \<^verbatim>\<open>viewMode\<close>).\<close>

definition gen2_fetch_effect :: "string \<Rightarrow> gen2_view \<Rightarrow> gen2_view \<times> inflight option" where
  "gen2_fetch_effect apiKey st =
     (let st1 = abort_current st in
      if viewMode st1 = Categories then (st1\<lparr>loading := False\<rparr>, None)
      else if apiKey = [] then
        (st1\<lparr>loading := False, items := [], hasMore := False, error := Some no_key_message\<rparr>,
         None)
      else
        (let c = next_controller st1;
             u = (case (viewMode st1, selectedListId st1) of
                    (ListItems, Some lid) \<Rightarrow> list_items_url lid (page st1)
                  | _ \<Rightarrow> gifs_url (debouncedQuery st1) (page st1));
             r = \<lparr>ctl = c, at_page = page st1, at_url = u, at_key = apiKey\<rparr>
         in (st1\<lparr>next_controller := c + 1, abortRef := Some c, loading := True,
                  error := None, requests := requests st1 @ [r]\<rparr>, Some r)))"

text \<open>
  Modelled from the Fetch standard, which Generation 1 relies on by passing
  \<^verbatim>\<open>signal: controller.signal\<close>: once the signal is aborted the fetch (or the reading of
  its body) rejects with an \<^verbatim>\<open>AbortError\<close>, whatever the network would have answered.
\<close>

definition fetch_with_signal :: "bool \<Rightarrow> thrown + response \<Rightarrow> thrown + response" where
  "fetch_with_signal signal_aborted net =
     (if signal_aborted then Inl (JsError ''The user aborted a request.'') else net)"

text \<open>Generation 1, first \<^verbatim>\<open>then\<close>: throw on a response that is not ok, else parse it.\<close>

definition gen1_then_response :: "response \<Rightarrow> thrown + json" where
  "gen1_then_response res =
     (if \<not> res_ok res then Inl (JsError (status_message (res_status res))) else res_json res)"

text \<open>
  Reading \<^verbatim>\<open>data.items\<close> when \<^verbatim>\<open>data\<close> is \<^verbatim>\<open>null\<close> throws a \<^verbatim>\<open>TypeError\<close>; the text is
  the engine's (here that of V8).
\<close>

definition null_read_message :: string where
  "null_read_message = ''Cannot read properties of null (reading 'items')''"

definition next_items :: "json \<Rightarrow> json list" where
  "next_items d = (case get_prop ''items'' d of Some (JArr xs) \<Rightarrow> xs | _ \<Rightarrow> [])"

text \<open>Generation 1, second \<^verbatim>\<open>then\<close>.\<close>

definition gen1_then_data ::
  "int \<Rightarrow> json \<Rightarrow> 'a mam_view_scheme \<Rightarrow> thrown + 'a mam_view_scheme" where
  "gen1_then_data pg d st =
     (if d = JNull then Inl (JsError null_read_message)
      else Inr (st\<lparr>items := (if pg = 1 then next_items d else items st @ next_items d),
                   hasMore := (case opt_prop ''has_more'' (get_prop ''pagination'' d) of
                                 None \<Rightarrow> False | Some v \<Rightarrow> truthy v)\<rparr>))"

text \<open>The \<^verbatim>\<open>catch\<close> and \<^verbatim>\<open>finally\<close> handlers, the same in both generations.\<close>

definition view_catch :: "inflight \<Rightarrow> thrown \<Rightarrow> 'a mam_view_scheme \<Rightarrow> 'a mam_view_scheme" where
  "view_catch r err st =
     (if ctl r \<in> aborted st then st
      else st\<lparr>error := Some (case err of JsError m \<Rightarrow> m | JsOther s \<Rightarrow> ''Request failed.''),
              items := (if at_page r = 1 then [] else items st),
              hasMore := False\<rparr>)"

definition view_finally :: "inflight \<Rightarrow> 'a mam_view_scheme \<Rightarrow> 'a mam_view_scheme" where
  "view_finally r st = (if ctl r \<notin> aborted st then st\<lparr>loading := False\<rparr> else st)"

text \<open>
  The promise chain of Generation 1 up to its \<^verbatim>\<open>catch\<close>, for the request \<open>r\<close> and the
  network's answer \<open>net\<close>, and the whole chain as one step of the view.
\<close>

definition gen1_chain :: "inflight \<Rightarrow> thrown + response \<Rightarrow> mam_view \<Rightarrow> thrown + mam_view" where
  "gen1_chain r net st =
     then_do (then_do (fetch_with_signal (ctl r \<in> aborted st) net) gen1_then_response)
       (\<lambda>d. gen1_then_data (at_page r) d st)"

definition gen1_settle :: "inflight \<Rightarrow> thrown + response \<Rightarrow> mam_view \<Rightarrow> mam_view" where
  "gen1_settle r net st =
     view_finally r
       (case gen1_chain r net st of Inr st' \<Rightarrow> st' | Inl err \<Rightarrow> view_catch r err st)"

text \<open>
  Generation 2 asks the bridge; \<open>native\<close> is \<^verbatim>\<open>getNative()?.fetchMagApi\<close>, \<open>None\<close> when the
  helper is missing. No signal is passed.
\<close>

definition native_missing_message :: string where
  "native_missing_message =
     ''Native handler not available. Please ensure you'' @ [CHR 0x27] @
     ''re using Vencord Desktop.''"

definition gen2_request ::
  "(url \<Rightarrow> request_init \<Rightarrow> thrown + envelope) option \<Rightarrow> inflight \<Rightarrow> thrown + envelope" where
  "gen2_request native r =
     (case native of
        Some f \<Rightarrow> f (at_url r) \<lparr>init_headers = [(''X-API-Key'', at_key r)]\<rparr>
      | None \<Rightarrow> Inl (JsError native_missing_message))"

definition gen2_then_response :: "envelope \<Rightarrow> thrown + json" where
  "gen2_then_response res =
     (if \<not> ok res then Inl (JsError (status_message (status res))) else Inr (data res))"

definition gen2_then_data ::
  "int \<Rightarrow> json \<Rightarrow> 'a mam_view_scheme \<Rightarrow> thrown + 'a mam_view_scheme" where
  "gen2_then_data pg d st =
     (if d = JNull then Inl (JsError null_read_message)
      else
        (let hasMoreFromFlag =
               (case opt_prop ''has_more'' (get_prop ''pagination'' d) of
                  Some (JBool b) \<Rightarrow> Some b | _ \<Rightarrow> None);
             hasMoreFromNext =
               (case opt_prop ''next_page'' (get_prop ''pagination'' d) of
                  None \<Rightarrow> False | Some JNull \<Rightarrow> False | Some v \<Rightarrow> True)
         in Inr (st\<lparr>items := (if pg = 1 then next_items d else items st @ next_items d),
                     hasMore := (case hasMoreFromFlag of Some b \<Rightarrow> b
                                 | None \<Rightarrow> hasMoreFromNext)\<rparr>)))"

definition gen2_chain ::
  "(url \<Rightarrow> request_init \<Rightarrow> thrown + envelope) option \<Rightarrow> inflight \<Rightarrow> gen2_view
     \<Rightarrow> thrown + gen2_view" where
  "gen2_chain native r st =
     then_do (then_do (gen2_request native r) gen2_then_response)
       (\<lambda>d. gen2_then_data (at_page r) d st)"

definition gen2_settle ::
  "(url \<Rightarrow> request_init \<Rightarrow> thrown + envelope) option \<Rightarrow> inflight \<Rightarrow> gen2_view
     \<Rightarrow> gen2_view" where
  "gen2_settle native r st =
     view_finally r
       (case gen2_chain native r st of Inr st' \<Rightarrow> st' | Inl err \<Rightarrow> view_catch r err st)"

text \<open>
  \<^verbatim>\<open>onSend\<close> of both generations. The host is what the handler can touch: the messages
  sent, the toasts shown, and whether the expression picker is open. A missing channel
  id is \<open>None\<close>; the test \<^verbatim>\<open>!channelId\<close> also holds for the empty string.
\<close>

datatype toast_type = Failure | Success | Message

record toast =
  toast_message :: string
  toast_kind :: toast_type

record picker_host =
  picker_sent :: "(string \<times> json option) list"
  toasts :: "toast list"
  picker_open :: bool

definition onSend :: "string option \<Rightarrow> json \<Rightarrow> picker_host \<Rightarrow> picker_host" where
  "onSend channelId gif h =
     (if channelId = None \<or> channelId = Some [] then
        h\<lparr>toasts := toasts h @ [\<lparr>toast_message = ''No channel selected.'', toast_kind = Failure\<rparr>]\<rparr>
      else
        h\<lparr>picker_sent := picker_sent h @ [(the channelId, get_prop ''public_url'' gif)],
          picker_open := False\<rparr>)"

section \<open>The chat-bar modal (MyAnimeGifModal)\<close>

record gif_item =
  gif_id :: int
  public_url :: string
  nsfw :: bool
  published :: bool
  created_at :: string

record gif_list =
  list_id :: int
  list_name :: string
  gif_count :: int

record pagination =
  pg_page :: int
  per_page :: int
  has_more :: bool
  next_page :: "int option"

record gif_list_response =
  resp_items :: "gif_item list"
  resp_pagination :: pagination

text \<open>
  A response as \<^verbatim>\<open>apiGet<T>\<close> uses it: \<open>res_payload\<close> is \<^verbatim>\<open>await res.json() as T\<close>, the
  body at the type the caller declares (the code does not check it at run time);
  \<open>res_json\<close> and \<open>res_text\<close> are the same body as \<^verbatim>\<open>parseErrorResponse\<close> reads it.
\<close>

record 'a typed_response = response +
  res_payload :: "thrown + 'a"

definition parseErrorResponse :: "'r response_scheme \<Rightarrow> string" where
  "parseErrorResponse res =
     (let detail = (case res_json res of
                      Inl e \<Rightarrow> None
                    | Inr j \<Rightarrow> (case opt_prop ''detail'' (Some j) of
                                 None \<Rightarrow> None
                               | Some d \<Rightarrow> if truthy d then Some (js_String d) else None))
      in case detail of
           Some m \<Rightarrow> m
         | None \<Rightarrow>
             (case res_text res of
                Inr t \<Rightarrow> t
              | Inl e \<Rightarrow> ''Request failed ('' @ show_int (res_status res) @ '')''))"

text \<open>\<^verbatim>\<open>apiGet\<close> from the point where \<^verbatim>\<open>fetch\<close> settles with \<open>net\<close>.\<close>

definition apiGet :: "thrown + 'a typed_response \<Rightarrow> thrown + 'a" where
  "apiGet net =
     then_do net (\<lambda>res.
       if \<not> res_ok res then Inl (JsError (parseErrorResponse res)) else res_payload res)"

record api_call =
  call_base :: string
  call_key :: string
  call_path :: string
  call_q :: ustring
  call_params :: "(string \<times> string) list"

datatype mode = Search | Lists

text \<open>
  The modal's React state, the \<^verbatim>\<open>previewUrlsRef\<close> ref, and the part of the host the
  modal acts on: the pending debounce timeout (its delay and the query it will search),
  the requests issued, the object URLs revoked, the messages sent and whether the modal
  is open.
\<close>

record modal =
  mode :: mode
  query :: ustring
  searchResults :: "gif_item list"
  searchLoading :: bool
  searchError :: "string option"
  searchPage :: int
  searchHasMore :: bool
  lists :: "gif_list list"
  listLoading :: bool
  listError :: "string option"
  modalSelectedListId :: "int option"
  listItems :: "gif_item list"
  listItemsLoading :: bool
  listItemsError :: "string option"
  listPage :: int
  listHasMore :: bool
  previewUrls :: "(int \<times> string) list"
  previewUrlsRef :: "(int \<times> string) list"
  timer :: "(nat \<times> ustring) option"
  api_calls :: "api_call list"
  revoked :: "string list"
  sent :: "(string \<times> string) list"
  modal_open :: bool

text \<open>The modal as it is mounted: the initial value of every \<^verbatim>\<open>useState\<close>.\<close>

definition modal_init :: modal where
  "modal_init =
     \<lparr>mode = Search, query = [], searchResults = [], searchLoading = False,
      searchError = None, searchPage = 1, searchHasMore = False, lists = [],
      listLoading = False, listError = None, modalSelectedListId = None, listItems = [],
      listItemsLoading = False, listItemsError = None, listPage = 1, listHasMore = False,
      previewUrls = [], previewUrlsRef = [], timer = None, api_calls = [], revoked = [],
      sent = [], modal_open = True\<rparr>"

text \<open>
  White space and line terminators of ECMAScript, as code units: what \<^verbatim>\<open>trim()\<close> strips
  from both ends.
\<close>

definition is_js_whitespace :: "nat \<Rightarrow> bool" where
  "is_js_whitespace c =
     (c \<in> {9, 10, 11, 12, 13, 32, 160, 5760, 8232, 8233, 8239, 8287, 12288, 65279}
      \<or> (8192 \<le> c \<and> c \<le> 8202))"

definition js_trim :: "ustring \<Rightarrow> ustring" where
  "js_trim s = rev (dropWhile is_js_whitespace (rev (dropWhile is_js_whitespace s)))"

definition SEARCH_LIMIT :: int where "SEARCH_LIMIT = 30"

text \<open>
  \<^verbatim>\<open>runSearch(searchQuery, page, replace)\<close> in two steps: up to the \<^verbatim>\<open>await\<close> (the
  request is issued), and from the moment \<^verbatim>\<open>apiGet\<close> settles with \<open>got\<close>. \<open>base\<close> and
  \<open>key\<close> are the \<^verbatim>\<open>apiBaseUrl\<close> and \<^verbatim>\<open>apiKey\<close> of the closure.
\<close>

definition runSearch_begin :: "string \<Rightarrow> string \<Rightarrow> ustring \<Rightarrow> int \<Rightarrow> modal \<Rightarrow> modal" where
  "runSearch_begin base key searchQuery pg st =
     st\<lparr>searchLoading := True, searchError := None,
        api_calls := api_calls st @
          [\<lparr>call_base = base, call_key = key, call_path = ''/gifs'', call_q = searchQuery,
            call_params = [(''visibility'', ''published''), (''sort_by'', ''created_at''),
                           (''order'', ''desc''), (''page'', show_int pg),
                           (''limit'', show_int SEARCH_LIMIT)]\<rparr>]\<rparr>"

definition runSearch_settle :: "bool \<Rightarrow> thrown + gif_list_response \<Rightarrow> modal \<Rightarrow> modal" where
  "runSearch_settle replace got st =
     (case got of
        Inr d \<Rightarrow>
          st\<lparr>searchResults := (if replace then resp_items d
                                else searchResults st @ resp_items d),
             searchPage := pg_page (resp_pagination d),
             searchHasMore := has_more (resp_pagination d),
             searchLoading := False\<rparr>
      | Inl err \<Rightarrow>
          st\<lparr>searchError := Some (case err of JsError m \<Rightarrow> m | JsOther s \<Rightarrow> ''Search failed''),
             searchLoading := False\<rparr>)"

text \<open>
  The debounced search effect (deps \<^verbatim>\<open>[query, mode, runSearch]\<close>), its cleanup
  (\<^verbatim>\<open>clearTimeout\<close>), and the timeout firing.
\<close>

definition search_effect :: "modal \<Rightarrow> modal" where
  "search_effect st =
     (if mode st \<noteq> Search then st
      else
        (let trimmed = js_trim (query st) in
         if trimmed = [] then
           st\<lparr>searchResults := [], searchHasMore := False, searchError := None\<rparr>
         else st\<lparr>timer := Some (350, trimmed)\<rparr>))"

definition search_effect_cleanup :: "modal \<Rightarrow> modal" where
  "search_effect_cleanup st = st\<lparr>timer := None\<rparr>"

definition timer_fires :: "string \<Rightarrow> string \<Rightarrow> modal \<Rightarrow> modal" where
  "timer_fires base key st =
     (case timer st of
        None \<Rightarrow> st
      | Some (delay, trimmed) \<Rightarrow> runSearch_begin base key trimmed 1 (st\<lparr>timer := None\<rparr>))"

text \<open>
  The text input's \<^verbatim>\<open>onChange={setQuery}\<close>: the state changes, React runs the cleanup
  of the previous run of the effect and then the effect.
\<close>

definition on_query_change :: "ustring \<Rightarrow> modal \<Rightarrow> modal" where
  "on_query_change q st = search_effect (search_effect_cleanup (st\<lparr>query := q\<rparr>))"

text \<open>
  The three preview effects: the ref follows \<^verbatim>\<open>previewUrls\<close>; the cleanup of the
  mount effect revokes what the ref holds; the effect on \<^verbatim>\<open>[apiBaseUrl, apiKey]\<close> clears
  the state.
\<close>

definition preview_ref_effect :: "modal \<Rightarrow> modal" where
  "preview_ref_effect st = st\<lparr>previewUrlsRef := previewUrls st\<rparr>"

definition unmount_cleanup :: "modal \<Rightarrow> modal" where
  "unmount_cleanup st = st\<lparr>revoked := revoked st @ map snd (previewUrlsRef st)\<rparr>"

definition credentials_effect :: "modal \<Rightarrow> modal" where
  "credentials_effect st =
     st\<lparr>searchResults := [], lists := [], listItems := [], previewUrls := [],
        searchError := None, listError := None, listItemsError := None\<rparr>"

text \<open>
  A preview arrives (\<^verbatim>\<open>URL.createObjectURL\<close>, then \<^verbatim>\<open>setPreviewUrls\<close>), and the base URL or
  the key changes; each state change is followed by the run of the ref effect that the
  changed \<^verbatim>\<open>previewUrls\<close> triggers.
\<close>

definition preview_created :: "int \<Rightarrow> string \<Rightarrow> modal \<Rightarrow> modal" where
  "preview_created gid u st =
     preview_ref_effect
       (st\<lparr>previewUrls := filter (\<lambda>kv. fst kv \<noteq> gid) (previewUrls st) @ [(gid, u)]\<rparr>)"

definition credentials_changed :: "modal \<Rightarrow> modal" where
  "credentials_changed st = preview_ref_effect (credentials_effect st)"

text \<open>
  \<^verbatim>\<open>handleSend\<close>: \<open>channel\<close> is the id of \<^verbatim>\<open>getCurrentChannel()\<close>, \<open>None\<close> when there is no
  current channel.
\<close>

definition handleSend :: "string option \<Rightarrow> gif_item \<Rightarrow> modal \<Rightarrow> modal" where
  "handleSend channel gif st =
     (case channel of
        None \<Rightarrow> st
      | Some cid \<Rightarrow> st\<lparr>sent := sent st @ [(cid, public_url gif)], modal_open := False\<rparr>)"

section \<open>The document\<close>

text \<open>
  An element is its identity (elements are numbered as they are created), the properties
  the engine reads and writes, and its child elements in order. The properties are the
  attributes (among them \<^verbatim>\<open>id\<close>, \<^verbatim>\<open>role\<close>, \<^verbatim>\<open>hidden\<close>, \<^verbatim>\<open>tabindex\<close>, the \<^verbatim>\<open>aria-\<close> and the
  \<^verbatim>\<open>data-\<close> attributes, so \<^verbatim>\<open>dataset.vcMamDisplay\<close> is \<^verbatim>\<open>data-vc-mam-display\<close>), the class
  list, the inline \<^verbatim>\<open>style.display\<close> and \<^verbatim>\<open>style.overflow\<close>, and the element's own text.
\<close>

record props =
  attrs :: "(string \<times> string) list"
  classList :: "string list"
  display :: string
  overflow :: string
  textContent :: string

datatype element = Element (eid: nat) (props: props) (children: "element list")

type_synonym node = "nat \<times> props"

text \<open>
  The elements of a tree in document order, each with its ancestors, nearest first: what
  \<^verbatim>\<open>querySelectorAll\<close> walks, and what \<^verbatim>\<open>closest\<close> and \<^verbatim>\<open>parentElement\<close> read.
\<close>

fun located_from :: "node list \<Rightarrow> element \<Rightarrow> (node \<times> node list) list" where
  "located_from ancs (Element i p ks) =
     ((i, p), ancs) # concat (map (located_from ((i, p) # ancs)) ks)"

definition located :: "element \<Rightarrow> (node \<times> node list) list" where
  "located d = located_from [] d"

definition nodes :: "element \<Rightarrow> node list" where
  "nodes d = map fst (located d)"

definition locate :: "nat \<Rightarrow> element \<Rightarrow> (node \<times> node list) option" where
  "locate i d = find (\<lambda>l. fst (fst l) = i) (located d)"

definition no_props :: props where
  "no_props = \<lparr>attrs = [], classList = [], display = [], overflow = [], textContent = []\<rparr>"

text \<open>
  The properties behind a reference. The document is all the model tracks: a reference
  to an element that is not in it reads as an element without attributes.
\<close>

definition props_of :: "nat \<Rightarrow> element \<Rightarrow> props" where
  "props_of i d = (case locate i d of Some l \<Rightarrow> snd (fst l) | None \<Rightarrow> no_props)"

definition isConnected :: "nat \<Rightarrow> element \<Rightarrow> bool" where
  "isConnected i d = (locate i d \<noteq> None)"

fun subtree :: "nat \<Rightarrow> element \<Rightarrow> element option" where
  "subtree i (Element j p ks) =
     (if i = j then Some (Element j p ks)
      else (case find (\<lambda>r. r \<noteq> None) (map (subtree i) ks) of
              Some r \<Rightarrow> r | None \<Rightarrow> None))"

text \<open>The descendants of an element in document order (\<^verbatim>\<open>el.querySelectorAll("*")\<close>).\<close>

definition descendants :: "nat \<Rightarrow> element \<Rightarrow> node list" where
  "descendants i d =
     (case subtree i d of None \<Rightarrow> [] | Some e \<Rightarrow> concat (map nodes (children e)))"

text \<open>\<^verbatim>\<open>el.parentElement ?? el\<close>\<close>

definition parent_or_self :: "nat \<Rightarrow> element \<Rightarrow> nat" where
  "parent_or_self i d =
     (case locate i d of Some (n, parent # ancs) \<Rightarrow> fst parent | _ \<Rightarrow> i)"

text \<open>
  Writing through a reference: the element with that identity gets new properties, or a
  new last child, or leaves the document.
\<close>

fun update_props :: "nat \<Rightarrow> (props \<Rightarrow> props) \<Rightarrow> element \<Rightarrow> element" where
  "update_props i f (Element j p ks) =
     Element j (if i = j then f p else p) (map (update_props i f) ks)"

fun append_child :: "nat \<Rightarrow> element \<Rightarrow> element \<Rightarrow> element" where
  "append_child i c (Element j p ks) =
     Element j p (map (append_child i c) ks @ (if i = j then [c] else []))"

fun remove_node :: "nat \<Rightarrow> element \<Rightarrow> element" where
  "remove_node i (Element j p ks) =
     Element j p (map (remove_node i) (filter (\<lambda>k. eid k \<noteq> i) ks))"

definition getAttribute :: "string \<Rightarrow> props \<Rightarrow> string option" where
  "getAttribute k p = map_of (attrs p) k"

definition hasAttribute :: "string \<Rightarrow> props \<Rightarrow> bool" where
  "hasAttribute k p = (map_of (attrs p) k \<noteq> None)"

definition setAttribute :: "string \<Rightarrow> string \<Rightarrow> props \<Rightarrow> props" where
  "setAttribute k v p = p\<lparr>attrs := AList.update k v (attrs p)\<rparr>"

definition removeAttribute :: "string \<Rightarrow> props \<Rightarrow> props" where
  "removeAttribute k p = p\<lparr>attrs := AList.delete k (attrs p)\<rparr>"

definition getElementById :: "string \<Rightarrow> element \<Rightarrow> nat option" where
  "getElementById i d =
     map_option fst (find (\<lambda>n. getAttribute ''id'' (snd n) = Some i) (nodes d))"

fun includes_str :: "string \<Rightarrow> string \<Rightarrow> bool" where
  "includes_str needle [] = (needle = [])"
| "includes_str needle (c # cs) =
     (take (length needle) (c # cs) = needle \<or> includes_str needle cs)"

definition lower_char :: "char \<Rightarrow> char" where
  "lower_char c =
     (case map_of (zip ''ABCDEFGHIJKLMNOPQRSTUVWXYZ'' ''abcdefghijklmnopqrstuvwxyz'') c of
        Some l \<Rightarrow> l | None \<Rightarrow> c)"

section \<open>The tab injection engine\<close>

definition MAM_LABEL :: string where "MAM_LABEL = ''MAM''"
definition MAM_TAB_ATTR :: string where "MAM_TAB_ATTR = ''data-vc-mam-tab''"
definition MAM_PANEL_ATTR :: string where "MAM_PANEL_ATTR = ''data-vc-mam-panel''"
definition MAM_BOUND_ATTR :: string where "MAM_BOUND_ATTR = ''data-vc-mam-bound''"
definition MAM_PANEL_ID_ATTR :: string where "MAM_PANEL_ID_ATTR = ''data-vc-mam-panel-id''"
definition MAM_TAB_ID_ATTR :: string where "MAM_TAB_ID_ATTR = ''data-vc-mam-tab-id''"
definition MAM_OWNER_ATTR :: string where "MAM_OWNER_ATTR = ''data-vc-mam-owner''"

text \<open>The selectors the engine uses, as predicates on an element's properties.\<close>

definition is_picker_panel :: "props \<Rightarrow> bool" where
  "is_picker_panel p =
     (case getAttribute ''id'' p of
        Some s \<Rightarrow> includes_str ''picker-tab-panel'' s | None \<Rightarrow> False)"

definition is_tab :: "props \<Rightarrow> bool" where
  "is_tab p = (getAttribute ''role'' p = Some ''tab'')"

definition is_tablist :: "props \<Rightarrow> bool" where
  "is_tablist p = (getAttribute ''role'' p = Some ''tablist'')"

definition is_tabpanel :: "props \<Rightarrow> bool" where
  "is_tabpanel p = (getAttribute ''role'' p = Some ''tabpanel'')"

definition controls :: "string \<Rightarrow> props \<Rightarrow> bool" where
  "controls pid p = (getAttribute ''aria-controls'' p = Some pid)"

definition is_selected :: "props \<Rightarrow> bool" where
  "is_selected p =
     (getAttribute ''aria-selected'' p = Some ''true''
      \<or> getAttribute ''aria-current'' p = Some ''page'')"

definition element_id :: "props \<Rightarrow> string" where
  "element_id p = (case getAttribute ''id'' p of Some s \<Rightarrow> s | None \<Rightarrow> [])"

record entry =
  tabList :: nat
  sampleTab :: nat
  samplePanel :: nat

text \<open>
  \<^verbatim>\<open>findPickerEntries\<close> writes \<^verbatim>\<open>panel.id\<close> unescaped between the double quotes of the
  selector \<^verbatim>\<open>[aria-controls="${panel.id}"]\<close>. For an id without a double quote, a backslash, a
  line break (line feed, form feed, carriage return) and a null character the selector is a
  string that stands for the id itself, and it matches the elements whose \<^verbatim>\<open>aria-controls\<close> is
  that id; this is what \<open>controls\<close> and \<open>controlling_tab\<close> below say. For any other id the
  selector may fail to parse (\<^verbatim>\<open>querySelector\<close> then throws a \<^verbatim>\<open>SyntaxError\<close>) or may mean
  something else, and the definitions below do not describe it: what is proved of the scan is
  proved of documents whose candidate panels have such ids (\<open>selector_safe_ids\<close>).
\<close>

definition css_string_safe :: "string \<Rightarrow> bool" where
  "css_string_safe s =
     list_all (\<lambda>c. c \<noteq> CHR 0x22 \<and> c \<noteq> CHR 0x5C \<and> c \<noteq> CHR 0x0A \<and> c \<noteq> CHR 0x0C
                  \<and> c \<noteq> CHR 0x0D \<and> c \<noteq> CHR 0x00) s"

text \<open>
  \<^verbatim>\<open>findPickerEntries\<close>: the tab that controls a panel (the first with
  \<^verbatim>\<open>role="tab"\<close>, else the first at all), \<^verbatim>\<open>tab.closest('[role=tablist]') ?? tab.parentElement\<close>,
  and the loop over the candidate panels with its \<^verbatim>\<open>seen\<close> set.
\<close>

definition controlling_tab ::
  "(node \<times> node list) list \<Rightarrow> string \<Rightarrow> (node \<times> node list) option" where
  "controlling_tab every pid =
     (case find (\<lambda>l. is_tab (snd (fst l)) \<and> controls pid (snd (fst l))) every of
        Some t \<Rightarrow> Some t
      | None \<Rightarrow> find (\<lambda>l. controls pid (snd (fst l))) every)"

definition tab_list_of :: "node \<times> node list \<Rightarrow> nat option" where
  "tab_list_of l =
     (case find (\<lambda>n. is_tablist (snd n)) (fst l # snd l) of
        Some n \<Rightarrow> Some (fst n)
      | None \<Rightarrow> (case snd l of [] \<Rightarrow> None | parent # ancs \<Rightarrow> Some (fst parent)))"

fun collect_entries ::
  "(node \<times> node list) list \<Rightarrow> node list \<Rightarrow> nat list \<Rightarrow> entry list" where
  "collect_entries every [] seen = []"
| "collect_entries every (panel # panels) seen =
     (case controlling_tab every (element_id (snd panel)) of
        None \<Rightarrow> collect_entries every panels seen
      | Some tab \<Rightarrow>
          (case tab_list_of tab of
             None \<Rightarrow> collect_entries every panels seen
           | Some tlist \<Rightarrow>
               if tlist \<in> set seen then collect_entries every panels seen
               else \<lparr>tabList = tlist, sampleTab = fst (fst tab), samplePanel = fst panel\<rparr>
                      # collect_entries every panels (tlist # seen)))"

definition findPickerEntries :: "element \<Rightarrow> entry list" where
  "findPickerEntries d =
     collect_entries (located d) (filter (\<lambda>n. is_picker_panel (snd n)) (nodes d)) []"

text \<open>
  The module state: the document, the identity the next created element gets,
  \<^verbatim>\<open>panelIdCounter\<close>, \<^verbatim>\<open>cleanupFns\<close> (each cleanup is the variables its closure captured),
  the panels that have a mounted root (\<^verbatim>\<open>mamRoots\<close>), the attached listeners, and
  whether the mutation observer is connected.
\<close>

record binding =
  b_tabList :: nat
  b_mamTab :: nat
  b_samplePanel :: nat
  b_activeClassNames :: "string list"

datatype handler = OnMamMouseDown | OnMamClick | OnMamKeyDown | OnTabListClick

record listener =
  l_target :: nat
  l_type :: string
  l_handler :: handler
  l_binding :: binding

record engine =
  doc :: element
  next_eid :: nat
  panelIdCounter :: nat
  cleanupFns :: "binding list"
  mamRoots :: "nat list"
  listeners :: "listener list"
  observing :: bool

definition getMamIds :: "nat \<Rightarrow> engine \<Rightarrow> (string \<times> string) \<times> engine" where
  "getMamIds tlist st =
     (let panelId = getAttribute MAM_PANEL_ID_ATTR (props_of tlist (doc st));
          tabId = getAttribute MAM_TAB_ID_ATTR (props_of tlist (doc st))
      in case (panelId, tabId) of
           (Some pid, Some tid) \<Rightarrow>
             if pid \<noteq> [] \<and> tid \<noteq> [] then ((pid, tid), st)
             else
               (let n = panelIdCounter st + 1;
                    pid' = ''mam-picker-tab-panel-'' @ show_nat n;
                    tid' = ''mam-picker-tab-'' @ show_nat n
                in ((pid', tid'),
                    st\<lparr>panelIdCounter := n,
                       doc := update_props tlist
                         (\<lambda>p. setAttribute MAM_TAB_ID_ATTR tid'
                                 (setAttribute MAM_PANEL_ID_ATTR pid' p)) (doc st)\<rparr>))
         | _ \<Rightarrow>
             (let n = panelIdCounter st + 1;
                  pid' = ''mam-picker-tab-panel-'' @ show_nat n;
                  tid' = ''mam-picker-tab-'' @ show_nat n
              in ((pid', tid'),
                  st\<lparr>panelIdCounter := n,
                     doc := update_props tlist
                       (\<lambda>p. setAttribute MAM_TAB_ID_ATTR tid'
                               (setAttribute MAM_PANEL_ID_ATTR pid' p)) (doc st)\<rparr>)))"

fun first_controlled :: "node list \<Rightarrow> element \<Rightarrow> nat option" where
  "first_controlled [] d = None"
| "first_controlled (t # ts) d =
     (case getAttribute ''aria-controls'' (snd t) of
        None \<Rightarrow> first_controlled ts d
      | Some i \<Rightarrow>
          if i = [] then first_controlled ts d
          else (case getElementById i d of
                  Some p \<Rightarrow> Some p | None \<Rightarrow> first_controlled ts d))"

definition resolveSamplePanel :: "nat \<Rightarrow> nat \<Rightarrow> element \<Rightarrow> nat option" where
  "resolveSamplePanel tlist fallback d =
     (let ds = descendants tlist d;
          activeTab =
            (case find (\<lambda>n. is_tab (snd n) \<and> is_selected (snd n)) ds of
               Some t \<Rightarrow> Some t
             | None \<Rightarrow>
                 (case find (\<lambda>n. is_tab (snd n) \<and> \<not> hasAttribute MAM_TAB_ATTR (snd n)) ds of
                    Some t \<Rightarrow> Some t
                  | None \<Rightarrow> find (\<lambda>n. is_tab (snd n)) ds));
          panelId = (case activeTab of
                       None \<Rightarrow> None | Some t \<Rightarrow> getAttribute ''aria-controls'' (snd t));
          panel = (case panelId of
                     None \<Rightarrow> None
                   | Some i \<Rightarrow> if i = [] then None else getElementById i d)
      in case panel of
           Some p \<Rightarrow> Some p
         | None \<Rightarrow>
             if isConnected fallback d then Some fallback
             else first_controlled
                    (filter (\<lambda>n. is_tab (snd n) \<and> hasAttribute ''aria-controls'' (snd n)) ds) d)"

definition getActiveClassNames :: "nat \<Rightarrow> nat \<Rightarrow> element \<Rightarrow> string list" where
  "getActiveClassNames tlist tab d =
     (let ds = descendants tlist d;
          activeTab = (case find (\<lambda>n. is_tab (snd n) \<and> is_selected (snd n)) ds of
                         Some t \<Rightarrow> snd t | None \<Rightarrow> props_of tab d);
          inactiveTab = find (\<lambda>n. is_tab (snd n) \<and> \<not> is_selected (snd n)) ds
      in case inactiveTab of
           None \<Rightarrow>
             filter (\<lambda>name. includes_str ''active'' (map lower_char name)) (classList activeTab)
         | Some t \<Rightarrow>
             filter (\<lambda>name. name \<notin> set (classList (snd t))) (classList activeTab))"

definition classList_add :: "string \<Rightarrow> string list \<Rightarrow> string list" where
  "classList_add name cs = (if name \<in> set cs then cs else cs @ [name])"

definition classList_remove :: "string \<Rightarrow> string list \<Rightarrow> string list" where
  "classList_remove name cs = filter (\<lambda>c. c \<noteq> name) cs"

definition setTabActiveState :: "bool \<Rightarrow> string list \<Rightarrow> props \<Rightarrow> props" where
  "setTabActiveState active activeClassNames p =
     (let p1 = setAttribute ''aria-selected'' (if active then ''true'' else ''false'') p
      in if active then
           (let p2 = setAttribute ''tabindex'' ''0'' (setAttribute ''aria-current'' ''page'' p1)
            in p2\<lparr>classList := fold classList_add activeClassNames (classList p2)\<rparr>)
         else
           (let p2 = setAttribute ''tabindex'' ''-1'' (removeAttribute ''aria-current'' p1)
            in p2\<lparr>classList := fold classList_remove activeClassNames (classList p2)\<rparr>))"

text \<open>\<^verbatim>\<open>panelContainer.contains(panel)\<close> for a located panel.\<close>

definition contains :: "nat \<Rightarrow> node \<times> node list \<Rightarrow> bool" where
  "contains container l = (container \<in> set (map fst (fst l # snd l)))"

definition ensureMamPanel :: "nat \<Rightarrow> string \<Rightarrow> engine \<Rightarrow> nat \<times> engine" where
  "ensureMamPanel panel panelId st =
     (let panelContainer = parent_or_self panel (doc st);
          orphanPanels =
            filter (\<lambda>l. hasAttribute MAM_PANEL_ATTR (snd (fst l))
                        \<and> getAttribute MAM_OWNER_ATTR (snd (fst l)) = Some panelId)
              (located (doc st));
          st1 = fold (\<lambda>l s. if \<not> contains panelContainer l
                             then s\<lparr>mamRoots := removeAll (fst (fst l)) (mamRoots s),
                                    doc := remove_node (fst (fst l)) (doc s)\<rparr>
                             else s) orphanPanels st
      in case find (\<lambda>n. hasAttribute MAM_PANEL_ATTR (snd n))
                (descendants panelContainer (doc st1)) of
           Some n \<Rightarrow> (fst n, st1)
         | None \<Rightarrow>
             (let i = next_eid st1;
                  mamPanel =
                    (setAttribute ''id'' panelId
                       (setAttribute ''role'' ''tabpanel''
                          (setAttribute MAM_OWNER_ATTR panelId
                             (setAttribute MAM_PANEL_ATTR [] (props_of panel (doc st1))))))
                      \<lparr>display := ''none'', overflow := ''hidden'', textContent := []\<rparr>
              in (i, st1\<lparr>next_eid := i + 1,
                         doc := append_child panelContainer (Element i mamPanel []) (doc st1),
                         mamRoots := mamRoots st1 @ [i]\<rparr>)))"

text \<open>
  What \<^verbatim>\<open>setMamActive\<close> does to one sibling panel: the \<^verbatim>\<open>active\<close> branch and the
  \<^verbatim>\<open>else if\<close> branch of its loop.
\<close>

definition hide_panel :: "props \<Rightarrow> props" where
  "hide_panel p =
     (let p1 = (if display p \<noteq> ''none''
                then setAttribute ''data-vc-mam-display'' (display p) p else p);
          p2 = (if \<not> hasAttribute ''data-vc-mam-hidden'' p1
                then setAttribute ''data-vc-mam-hidden''
                       (if hasAttribute ''hidden'' p1 then ''1'' else ''0'') p1
                else p1)
      in setAttribute ''hidden'' [] (p2\<lparr>display := ''none''\<rparr>))"

definition unhide_panel :: "props \<Rightarrow> props" where
  "unhide_panel p =
     (case getAttribute ''data-vc-mam-display'' p of
        None \<Rightarrow> p
      | Some saved \<Rightarrow>
          (let p1 = removeAttribute ''data-vc-mam-display'' (p\<lparr>display := saved\<rparr>)
           in case getAttribute ''data-vc-mam-hidden'' p1 of
                None \<Rightarrow> p1
              | Some h \<Rightarrow>
                  removeAttribute ''data-vc-mam-hidden''
                    (if h = ''1'' then setAttribute ''hidden'' [] p1
                     else removeAttribute ''hidden'' p1)))"

definition setMamActive :: "nat \<Rightarrow> nat \<Rightarrow> bool \<Rightarrow> string list \<Rightarrow> engine \<Rightarrow> engine" where
  "setMamActive tlist panel active activeClassNames st =
     (case resolveSamplePanel tlist panel (doc st) of
        None \<Rightarrow> st
      | Some resolvedPanel \<Rightarrow>
          (let mamTab = find (\<lambda>n. hasAttribute MAM_TAB_ATTR (snd n)) (descendants tlist (doc st));
               (ids, st1) = getMamIds tlist st;
               (mamPanel, st2) = ensureMamPanel resolvedPanel (fst ids) st1;
               panelContainer = parent_or_self resolvedPanel (doc st2);
               panels = filter (\<lambda>i. i \<noteq> mamPanel)
                          (map fst (filter (\<lambda>n. is_tabpanel (snd n))
                                      (descendants panelContainer (doc st2))));
               d3 = fold (\<lambda>i. update_props i (if active then hide_panel else unhide_panel))
                      panels (doc st2);
               d4 = (case mamTab of
                       None \<Rightarrow> d3
                     | Some t \<Rightarrow>
                         (let otherTabs =
                                (if active
                                 then filter (\<lambda>i. i \<noteq> fst t)
                                        (map fst (filter (\<lambda>n. is_tab (snd n))
                                                    (descendants tlist d3)))
                                 else [])
                          in update_props (fst t) (setTabActiveState active activeClassNames)
                               (fold (\<lambda>i. update_props i
                                             (setTabActiveState False activeClassNames))
                                  otherTabs d3)));
               d5 = update_props mamPanel
                      (\<lambda>p. (if active then removeAttribute ''hidden'' (p\<lparr>display := []\<rparr>)
                             else setAttribute ''hidden'' [] (p\<lparr>display := ''none''\<rparr>))) d4
           in st2\<lparr>doc := d5\<rparr>))"

definition binding_listeners :: "binding \<Rightarrow> listener list" where
  "binding_listeners b =
     [\<lparr>l_target = b_mamTab b, l_type = ''mousedown'', l_handler = OnMamMouseDown, l_binding = b\<rparr>,
      \<lparr>l_target = b_mamTab b, l_type = ''click'', l_handler = OnMamClick, l_binding = b\<rparr>,
      \<lparr>l_target = b_mamTab b, l_type = ''keydown'', l_handler = OnMamKeyDown, l_binding = b\<rparr>,
      \<lparr>l_target = b_tabList b, l_type = ''click'', l_handler = OnTabListClick, l_binding = b\<rparr>]"

text \<open>
  \<^verbatim>\<open>injectMamTab\<close>. The deep clone of the sample tab loses its children when
  \<^verbatim>\<open>textContent\<close> is set, so the new tab is one element.
\<close>

definition injectMamTab :: "entry \<Rightarrow> engine \<Rightarrow> engine" where
  "injectMamTab e st =
     (if hasAttribute MAM_BOUND_ATTR (props_of (tabList e) (doc st)) then st
      else
        (let st1 = st\<lparr>doc := update_props (tabList e)
                               (setAttribute MAM_BOUND_ATTR ''true'') (doc st)\<rparr>;
             (ids, st2) = getMamIds (tabList e) st1;
             activeClassNames = getActiveClassNames (tabList e) (sampleTab e) (doc st2);
             i = next_eid st2;
             mamTab =
               setTabActiveState False activeClassNames
                 ((setAttribute ''id'' (snd ids)
                     (setAttribute ''aria-controls'' (fst ids)
                        (setAttribute ''role'' ''tab''
                           (setAttribute MAM_TAB_ATTR []
                              (props_of (sampleTab e) (doc st2))))))
                    \<lparr>textContent := MAM_LABEL\<rparr>);
             b = \<lparr>b_tabList = tabList e, b_mamTab = i, b_samplePanel = samplePanel e,
                  b_activeClassNames = activeClassNames\<rparr>
         in st2\<lparr>next_eid := i + 1,
                listeners := listeners st2 @ binding_listeners b,
                doc := append_child (tabList e) (Element i mamTab []) (doc st2),
                cleanupFns := cleanupFns st2 @ [b]\<rparr>))"

definition scanForPicker :: "engine \<Rightarrow> engine" where
  "scanForPicker st = fold injectMamTab (findPickerEntries (doc st)) st"

text \<open>The \<^verbatim>\<open>cleanup\<close> closure of a binding, and what it does to one panel.\<close>

definition cleanup_panel :: "props \<Rightarrow> props" where
  "cleanup_panel p =
     (case getAttribute ''data-vc-mam-display'' p of
        None \<Rightarrow> p
      | Some saved \<Rightarrow> removeAttribute ''data-vc-mam-display'' (p\<lparr>display := saved\<rparr>))"

definition cleanup :: "binding \<Rightarrow> engine \<Rightarrow> engine" where
  "cleanup b st =
     (let ls = filter (\<lambda>l. l \<notin> set (binding_listeners b)) (listeners st);
          panelContainer = parent_or_self (b_samplePanel b) (doc st);
          panels = map fst (filter (\<lambda>n. is_tabpanel (snd n))
                              (descendants panelContainer (doc st)));
          d1 = fold (\<lambda>i. update_props i cleanup_panel) panels (doc st);
          mamPanel = find (\<lambda>n. hasAttribute MAM_PANEL_ATTR (snd n))
                       (descendants panelContainer d1);
          roots = (case mamPanel of
                     None \<Rightarrow> mamRoots st | Some n \<Rightarrow> removeAll (fst n) (mamRoots st));
          d2 = (case mamPanel of None \<Rightarrow> d1 | Some n \<Rightarrow> remove_node (fst n) d1);
          d3 = remove_node (b_mamTab b) d2;
          d4 = update_props (b_tabList b)
                 (\<lambda>p. removeAttribute MAM_TAB_ID_ATTR
                         (removeAttribute MAM_PANEL_ID_ATTR
                            (removeAttribute MAM_BOUND_ATTR p))) d3
      in st\<lparr>listeners := ls, mamRoots := roots, doc := d4\<rparr>)"

text \<open>The plugin's \<^verbatim>\<open>start\<close> and \<^verbatim>\<open>stop\<close>.\<close>

definition start :: "engine \<Rightarrow> engine" where
  "start st = scanForPicker (st\<lparr>observing := True\<rparr>)"

definition stop :: "engine \<Rightarrow> engine" where
  "stop st = (fold cleanup (cleanupFns st) (st\<lparr>observing := False\<rparr>))\<lparr>cleanupFns := []\<rparr>"

text \<open>
  The listeners. An event has a type, a target and, for a key event, a key; it visits
  the capturing listeners from the root of the document down to the target. The click
  listener of the synthetic tab activates at once and once more in the next animation
  frame; the frame is run here together with the click, so that no other event and no
  \<^verbatim>\<open>stop\<close> comes between the two activations.
\<close>

record event =
  ev_type :: string
  ev_target :: nat
  ev_key :: string

definition run_listener :: "event \<Rightarrow> listener \<Rightarrow> engine \<Rightarrow> engine" where
  "run_listener ev l st =
     (let b = l_binding l;
          activate = setMamActive (b_tabList b) (b_samplePanel b) True (b_activeClassNames b)
      in case l_handler l of
           OnMamMouseDown \<Rightarrow> activate st
         | OnMamClick \<Rightarrow> activate (activate st)
         | OnMamKeyDown \<Rightarrow>
             if ev_key ev \<noteq> ''Enter'' \<and> ev_key ev \<noteq> '' '' then st else activate st
         | OnTabListClick \<Rightarrow>
             (case locate (ev_target ev) (doc st) of
                None \<Rightarrow> st
              | Some l' \<Rightarrow>
                  (case find (\<lambda>n. is_tab (snd n)) (fst l' # snd l') of
                     None \<Rightarrow> st
                   | Some tab \<Rightarrow>
                       if hasAttribute MAM_TAB_ATTR (snd tab) then st
                       else setMamActive (b_tabList b) (b_samplePanel b) False
                              (b_activeClassNames b) st)))"

definition dispatchEvent :: "event \<Rightarrow> engine \<Rightarrow> engine" where
  "dispatchEvent ev st =
     (case locate (ev_target ev) (doc st) of
        None \<Rightarrow> st
      | Some l \<Rightarrow>
          fold (run_listener ev)
            (concat (map (\<lambda>n. filter (\<lambda>x. l_target x = fst n \<and> l_type x = ev_type ev)
                                 (listeners st))
                       (rev (fst l # snd l))))
            st)"

text \<open>A pointer click on an element: \<^verbatim>\<open>mousedown\<close>, then \<^verbatim>\<open>click\<close>.\<close>

definition user_click :: "nat \<Rightarrow> engine \<Rightarrow> engine" where
  "user_click target st =
     dispatchEvent \<lparr>ev_type = ''click'', ev_target = target, ev_key = []\<rparr>
       (dispatchEvent \<lparr>ev_type = ''mousedown'', ev_target = target, ev_key = []\<rparr> st)"

text \<open>
  An example picker: a tab list with the selected GIF tab and the emoji tab, and under
  the same container the GIF panel (shown) and the emoji panel, which the host keeps
  out of sight with an inline \<^verbatim>\<open>display: none\<close> and no \<^verbatim>\<open>hidden\<close> attribute.
\<close>

definition example_props :: "(string \<times> string) list \<Rightarrow> string list \<Rightarrow> string \<Rightarrow> props" where
  "example_props a c d =
     \<lparr>attrs = a, classList = c, display = d, overflow = [], textContent = []\<rparr>"

definition example_doc :: element where
  "example_doc =
     Element 0 (example_props [(''id'', ''expression-picker'')] [] [])
       [Element 1 (example_props [(''role'', ''tablist'')] [''nav''] [])
          [Element 2 (example_props
                        [(''id'', ''gif-picker-tab''), (''role'', ''tab''),
                         (''aria-controls'', ''gif-picker-tab-panel''),
                         (''aria-selected'', ''true'')]
                        [''navItem'', ''navButtonActive''] []) [],
           Element 3 (example_props
                        [(''id'', ''emoji-picker-tab''), (''role'', ''tab''),
                         (''aria-controls'', ''emoji-picker-tab-panel''),
                         (''aria-selected'', ''false'')]
                        [''navItem''] []) []],
        Element 4 (example_props
                     [(''id'', ''gif-picker-tab-panel''), (''role'', ''tabpanel'')] [] []) [],
        Element 5 (example_props
                     [(''id'', ''emoji-picker-tab-panel''), (''role'', ''tabpanel'')] []
                     ''none'') []]"

definition example_engine :: engine where
  "example_engine =
     \<lparr>doc = example_doc, next_eid = 6, panelIdCounter = 0, cleanupFns = [], mamRoots = [],
      listeners = [], observing = False\<rparr>"

section \<open>Well-formed states and example values\<close>


text \<open>The view as it is mounted: the initial value of every \<^verbatim>\<open>useState\<close> and \<^verbatim>\<open>useRef\<close>.\<close>

definition view_init :: mam_view where
  "view_init =
     \<lparr>debouncedQuery = [], items = [], error = None, loading = False, page = 1,
      hasMore = False, abortRef = None, aborted = {}, next_controller = 0, requests = []\<rparr>"

text \<open>
  The Generation 2 view mounts in the categories, where its fetch effect issues no request;
  this is the view once \<^verbatim>\<open>All GIFs\<close> has been chosen there, before its first request.
\<close>

definition view2_init :: gen2_view where
  "view2_init =
     \<lparr>debouncedQuery = [], items = [], error = None, loading = False, page = 1,
      hasMore = False, abortRef = None, aborted = {}, next_controller = 0, requests = [],
      viewMode = All, selectedListId = None\<rparr>"

definition example_gif :: "int \<Rightarrow> gif_item" where
  "example_gif n =
     \<lparr>gif_id = n, public_url = ''https://example.com/media/gifs/'' @ show_int n,
      nsfw = False, published = True, created_at = ''2025-01-01T12:00:00Z''\<rparr>"


definition example_error_response :: "int \<Rightarrow> string \<Rightarrow> response" where
  "example_error_response s detail =
     \<lparr>res_ok = False, res_status = s, res_statusText = [],
      res_json = Inr (JObj [(''detail'', JStr detail)]),
      res_text = Inl (JsError ''body stream already read'')\<rparr>"

text \<open>A response that is not ok and whose body is not JSON (an HTML error page).\<close>

definition example_html_response :: "int \<Rightarrow> response" where
  "example_html_response s =
     \<lparr>res_ok = False, res_status = s, res_statusText = ''Bad Gateway'',
      res_json = Inl (JsError ''Unexpected token < in JSON at position 0''),
      res_text = Inl (JsError ''body stream already read'')\<rparr>"


definition example_request :: "nat \<Rightarrow> int \<Rightarrow> inflight" where
  "example_request c pg = \<lparr>ctl = c, at_page = pg, at_url = gifs_url [] pg, at_key = ''key''\<rparr>"

section \<open>Documents and states for the idempotence of the scan\<close>

text \<open>A function applied to the properties of the element with one identity, on a node.\<close>

definition touch :: "nat \<Rightarrow> (props \<Rightarrow> props) \<Rightarrow> node \<Rightarrow> node" where
  "touch i f n = (fst n, if fst n = i then f (snd n) else snd n)"

text \<open>The same on a located node: on the node itself and on each of its ancestors.\<close>

definition touch_located ::
  "nat \<Rightarrow> (props \<Rightarrow> props) \<Rightarrow> node \<times> node list \<Rightarrow> node \<times> node list" where
  "touch_located i f l = (touch i f (fst l), map (touch i f) (snd l))"

text \<open>The identities of the elements of a document, in document order.\<close>

definition eids :: "element \<Rightarrow> nat list" where
  "eids d = map fst (nodes d)"

text \<open>A change of properties that writes nothing but the bound, panel-id and tab-id
  attributes of the plugin.\<close>

definition plugin_attrs_only :: "(props \<Rightarrow> props) \<Rightarrow> bool" where
  "plugin_attrs_only f =
     (\<forall>p k. k \<noteq> MAM_BOUND_ATTR \<and> k \<noteq> MAM_PANEL_ID_ATTR \<and> k \<noteq> MAM_TAB_ID_ATTR
         \<longrightarrow> getAttribute k (f p) = getAttribute k p)"

text \<open>The element with this identity carries the bound attribute.\<close>

definition bound_at :: "nat \<Rightarrow> element \<Rightarrow> bool" where
  "bound_at i d = hasAttribute MAM_BOUND_ATTR (props_of i d)"

text \<open>The tab lists that \<^verbatim>\<open>findPickerEntries\<close> resolves from the candidate panels of a
  located document.\<close>

definition resolved_in :: "(node \<times> node list) list \<Rightarrow> nat set" where
  "resolved_in every =
     {t. \<exists>l tab. l \<in> set every \<and> is_picker_panel (snd (fst l))
           \<and> controlling_tab every (element_id (snd (fst l))) = Some tab
           \<and> tab_list_of tab = Some t}"

text \<open>An element that \<^verbatim>\<open>closest("[role='tablist']") ?? parentElement\<close> can return: it is in
  the document, and it is a tab list or none of its ancestors is one.\<close>

definition tl_closed_in :: "(node \<times> node list) list \<Rightarrow> nat \<Rightarrow> bool" where
  "tl_closed_in every t =
     (\<exists>p ancs. ((t, p), ancs) \<in> set every
        \<and> (is_tablist p \<or> (\<forall>a \<in> set ancs. \<not> is_tablist (snd a))))"

text \<open>Element identities are distinct, and the next fresh identity is above all of them: every
  element of the document is one object.\<close>

definition wf_engine :: "engine \<Rightarrow> bool" where
  "wf_engine st =
     (distinct (eids (doc st)) \<and> list_all (\<lambda>i. i < next_eid st) (eids (doc st)))"

text \<open>The panel-id and tab-id attributes of the plugin occur only on elements that also carry
  the bound attribute.\<close>

definition ids_imply_bound :: "element \<Rightarrow> bool" where
  "ids_imply_bound d =
     list_all (\<lambda>n. (hasAttribute MAM_PANEL_ID_ATTR (snd n) \<or> hasAttribute MAM_TAB_ID_ATTR (snd n))
                      \<longrightarrow> hasAttribute MAM_BOUND_ATTR (snd n)) (nodes d)"

text \<open>What \<^verbatim>\<open>injectMamTab\<close> writes on an unbound tab list whose ids are not cached.\<close>

definition bind_attrs :: "nat \<Rightarrow> props \<Rightarrow> props" where
  "bind_attrs n p =
     setAttribute MAM_TAB_ID_ATTR (''mam-picker-tab-'' @ show_nat n)
       (setAttribute MAM_PANEL_ID_ATTR (''mam-picker-tab-panel-'' @ show_nat n)
          (setAttribute MAM_BOUND_ATTR ''true'' p))"

text \<open>The properties of the synthetic tab cloned from a sample tab with properties \<open>p\<close>.\<close>

definition mam_tab_props :: "string list \<Rightarrow> nat \<Rightarrow> props \<Rightarrow> props" where
  "mam_tab_props names n p =
     setTabActiveState False names
       ((setAttribute ''id'' (''mam-picker-tab-'' @ show_nat n)
           (setAttribute ''aria-controls'' (''mam-picker-tab-panel-'' @ show_nat n)
              (setAttribute ''role'' ''tab''
                 (setAttribute MAM_TAB_ATTR [] p))))
          \<lparr>textContent := MAM_LABEL\<rparr>)"

text \<open>The synthetic tabs (elements carrying \<^verbatim>\<open>data-vc-mam-tab\<close>) that are children of the
  element \<open>t\<close>.\<close>

definition synthetic_tabs :: "nat \<Rightarrow> element \<Rightarrow> (node \<times> node list) list" where
  "synthetic_tabs t d =
     filter (\<lambda>l. hasAttribute MAM_TAB_ATTR (snd (fst l))
                 \<and> (case snd l of [] \<Rightarrow> False | parent # ancs \<Rightarrow> fst parent = t))
       (located d)"

text \<open>The synthetic panels (elements carrying \<^verbatim>\<open>data-vc-mam-panel\<close>) of a document.\<close>

definition synthetic_panels :: "element \<Rightarrow> node list" where
  "synthetic_panels d = filter (\<lambda>n. hasAttribute MAM_PANEL_ATTR (snd n)) (nodes d)"

text \<open>A document the plugin has not touched: no element carries one of its five attributes.\<close>

definition plugin_free :: "element \<Rightarrow> bool" where
  "plugin_free d =
     list_all (\<lambda>n. \<not> hasAttribute MAM_BOUND_ATTR (snd n)
                 \<and> \<not> hasAttribute MAM_PANEL_ID_ATTR (snd n)
                 \<and> \<not> hasAttribute MAM_TAB_ID_ATTR (snd n)
                 \<and> \<not> hasAttribute MAM_TAB_ATTR (snd n)
                 \<and> \<not> hasAttribute MAM_PANEL_ATTR (snd n)) (nodes d)"

text \<open>Every candidate panel of the document has an id that the selector of
  \<^verbatim>\<open>findPickerEntries\<close> can hold between its quotes.\<close>

definition selector_safe_ids :: "element \<Rightarrow> bool" where
  "selector_safe_ids d =
     list_all (\<lambda>n. is_picker_panel (snd n) \<longrightarrow> css_string_safe (element_id (snd n))) (nodes d)"

text \<open>The example picker after the plugin has started and the synthetic tab (element 6) has
  been clicked: the synthetic panel exists.\<close>

definition activated_example :: engine where
  "activated_example = user_click 6 (start example_engine)"

section \<open>Theorems\<close>

subsection \<open>The native fetch bridge\<close>

text \<open>
  C2. For every network, URL and options \<^verbatim>\<open>fetchMagApi\<close> returns a record and never
  rejects: when a response is received and its body parses as JSON, the record is
  \<^verbatim>\<open>{ ok: response.ok, status, statusText, data: parsedBody }\<close>; when \<^verbatim>\<open>fetch\<close> rejects or
  the body does not parse, it is exactly
  \<^verbatim>\<open>{ ok: false, status: -1, statusText: "Network Error", data: { error: message } }\<close>,
  the message being that of the thrown \<^verbatim>\<open>Error\<close> (or the text of any other thrown value).
\<close>

theorem fetchMagApi_never_rejects:
  "fetchMagApi fetch url options =
     Inr (case fetch url options of
            Inl e \<Rightarrow>
              \<lparr>ok = False, status = - 1, statusText = ''Network Error'',
               data = JObj [(''error'', JStr (case e of JsError m \<Rightarrow> m | JsOther s \<Rightarrow> s))]\<rparr>
          | Inr res \<Rightarrow>
              (case res_json res of
                 Inl e \<Rightarrow>
                   \<lparr>ok = False, status = - 1, statusText = ''Network Error'',
                    data = JObj [(''error'', JStr (case e of JsError m \<Rightarrow> m | JsOther s \<Rightarrow> s))]\<rparr>
               | Inr d \<Rightarrow>
                   \<lparr>ok = res_ok res, status = res_status res,
                    statusText = res_statusText res, data = d\<rparr>))"
  by (simp add: fetchMagApi_def try_catch_def then_do_def split: sum.splits)

subsection \<open>Stale responses\<close>








subsection \<open>Error messages\<close>

text \<open>
  C6, as it holds. In Generation 1 a response that is not ok surfaces exactly
  \<^verbatim>\<open>Invalid API key.\<close> when its status is 401 and exactly \<^verbatim>\<open>Request failed (<status>).\<close> with
  the decimal status otherwise. In Generation 2, which sees the response through the bridge,
  the same holds of a response that is not ok and whose body parses as JSON; a response whose
  body does not parse surfaces \<^verbatim>\<open>Request failed (-1).\<close>, whatever its status, because the bridge
  answers a body it cannot parse with the status -1. In the chat-bar plugin a response that is
  not ok and whose body is \<^verbatim>\<open>{"detail":"Invalid API key"}\<close> surfaces the detail text
  \<^verbatim>\<open>Invalid API key\<close>. (The request is the live one: its controller is not aborted.)
\<close>

theorem error_message_surfaced:
  "(ctl r \<notin> aborted st \<and> \<not> res_ok res \<longrightarrow>
      error (gen1_settle r (Inr res) st) =
        Some (if res_status res = 401 then ''Invalid API key.''
              else ''Request failed ('' @ show_int (res_status res) @ '').''))
   \<and> (ctl r \<notin> aborted st2
        \<and> fetch (at_url r) \<lparr>init_headers = [(''X-API-Key'', at_key r)]\<rparr> = Inr res
        \<and> res_json res = Inr body \<and> \<not> res_ok res \<longrightarrow>
      error (gen2_settle (Some (fetchMagApi fetch)) r st2) =
        Some (if res_status res = 401 then ''Invalid API key.''
              else ''Request failed ('' @ show_int (res_status res) @ '').''))
   \<and> (ctl r \<notin> aborted st2
        \<and> fetch (at_url r) \<lparr>init_headers = [(''X-API-Key'', at_key r)]\<rparr> = Inr res
        \<and> res_json res = Inl thrown \<longrightarrow>
      error (gen2_settle (Some (fetchMagApi fetch)) r st2) = Some ''Request failed (-1).'')
   \<and> (\<not> res_ok tres \<and> res_json tres = Inr (JObj [(''detail'', JStr ''Invalid API key'')]) \<longrightarrow>
      searchError (runSearch_settle replace (apiGet (Inr tres)) mst) = Some ''Invalid API key'')"
  by (simp add: status_message_def gen1_settle_def gen2_settle_def view_catch_def
      view_finally_def gen1_chain_def gen2_chain_def fetch_with_signal_def then_do_def
      try_catch_def gen1_then_response_def gen2_then_response_def gen2_request_def
      fetchMagApi_def runSearch_settle_def apiGet_def parseErrorResponse_def opt_prop_def
      show_int_def show_nat.simps digit_char_def)

text \<open>
  Witness for C6: a 401 with the body \<^verbatim>\<open>{"detail":"Invalid API key"}\<close>, a 500 and a 503 with a
  JSON body, and a 504 with an HTML body, answered to the first request of a view and to a
  search of the modal.
\<close>

theorem error_message_surfaced_witness:
  "error (gen1_settle (example_request 0 1) (Inr (example_error_response 401 ''Invalid API key''))
            (fst (gen1_fetch_effect ''key'' view_init))) = Some ''Invalid API key.''
   \<and> error (gen1_settle (example_request 0 1) (Inr (example_error_response 500 ''down''))
            (fst (gen1_fetch_effect ''key'' view_init))) = Some ''Request failed (500).''
   \<and> error (gen2_settle
              (Some (fetchMagApi (\<lambda>u i. Inr (example_error_response 401 ''Invalid API key''))))
              (example_request 0 1) (fst (gen2_fetch_effect ''key'' view2_init)))
        = Some ''Invalid API key.''
   \<and> error (gen2_settle
              (Some (fetchMagApi (\<lambda>u i. Inr (example_error_response 503 ''down''))))
              (example_request 0 1) (fst (gen2_fetch_effect ''key'' view2_init)))
        = Some ''Request failed (503).''
   \<and> error (gen2_settle
              (Some (fetchMagApi (\<lambda>u i. Inr (example_html_response 504))))
              (example_request 0 1) (fst (gen2_fetch_effect ''key'' view2_init)))
        = Some ''Request failed (-1).''
   \<and> searchError (runSearch_settle True
        (apiGet (Inr (response.extend (example_error_response 401 ''Invalid API key'')
           (typed_response.fields (Inl (JsError ''unused''))))))
        modal_init) = Some ''Invalid API key''"
proof -
  have live1: "ctl (example_request 0 1) \<notin> aborted (fst (gen1_fetch_effect ''key'' view_init))"
    by (simp add: gen1_fetch_effect_def Let_def view_init_def abort_current_def)
  have live2: "ctl (example_request 0 1) \<notin> aborted (fst (gen2_fetch_effect ''key'' view2_init))"
    by (simp add: gen2_fetch_effect_def Let_def view2_init_def abort_current_def)
  have e: "\<And>s d. \<not> res_ok (example_error_response s d)"
    "\<And>s d. res_status (example_error_response s d) = s"
    "\<And>s d. res_json (example_error_response s d) = Inr (JObj [(''detail'', JStr d)])"
    by (simp_all add: example_error_response_def)
  have h: "res_json (example_html_response 504)
             = Inl (JsError ''Unexpected token < in JSON at position 0'')"
    by (simp add: example_html_response_def)
  have t: "\<not> res_ok (response.extend (example_error_response 401 ''Invalid API key'')
                 (typed_response.fields (Inl (JsError ''unused'') :: thrown + gif_list_response)))"
    "res_json (response.extend (example_error_response 401 ''Invalid API key'')
                 (typed_response.fields (Inl (JsError ''unused'') :: thrown + gif_list_response)))
       = Inr (JObj [(''detail'', JStr ''Invalid API key'')])"
    by (simp_all add: example_error_response_def response.defs typed_response.defs)
  have d: "show_int 500 = ''500''" "show_int 503 = ''503''"
    by (simp_all add: show_int_def digit_char_def show_nat.simps)
  note T = error_message_surfaced
  show ?thesis
    using T[where r = "example_request 0 1" and st = "fst (gen1_fetch_effect ''key'' view_init)"
          and res = "example_error_response 401 ''Invalid API key''", THEN conjunct1]
      T[where r = "example_request 0 1" and st = "fst (gen1_fetch_effect ''key'' view_init)"
          and res = "example_error_response 500 ''down''", THEN conjunct1]
      T[where r = "example_request 0 1" and ?st2.0 = "fst (gen2_fetch_effect ''key'' view2_init)"
          and fetch = "\<lambda>u i. Inr (example_error_response 401 ''Invalid API key'')"
          and res = "example_error_response 401 ''Invalid API key''"
          and body = "JObj [(''detail'', JStr ''Invalid API key'')]",
          THEN conjunct2, THEN conjunct1]
      T[where r = "example_request 0 1" and ?st2.0 = "fst (gen2_fetch_effect ''key'' view2_init)"
          and fetch = "\<lambda>u i. Inr (example_error_response 503 ''down'')"
          and res = "example_error_response 503 ''down''"
          and body = "JObj [(''detail'', JStr ''down'')]",
          THEN conjunct2, THEN conjunct1]
      T[where r = "example_request 0 1" and ?st2.0 = "fst (gen2_fetch_effect ''key'' view2_init)"
          and fetch = "\<lambda>u i. Inr (example_html_response 504)"
          and res = "example_html_response 504"
          and thrown = "JsError ''Unexpected token < in JSON at position 0''",
          THEN conjunct2, THEN conjunct2, THEN conjunct1]
      T[where tres = "response.extend (example_error_response 401 ''Invalid API key'')
                 (typed_response.fields (Inl (JsError ''unused'') :: thrown + gif_list_response))"
          and replace = True and mst = modal_init, THEN conjunct2, THEN conjunct2, THEN conjunct2]
      live1 live2 e h t d
    by simp
qed

text \<open>
  C6, as stated, fails in Generation 2: a 502 whose body is an HTML page is a response with a
  non-success status other than 401, and the view shows \<^verbatim>\<open>Request failed (-1).\<close>, not
  \<^verbatim>\<open>Request failed (502).\<close>.
\<close>

theorem gen2_status_lost_for_non_json_body:
  "\<not> res_ok (example_html_response 502) \<and> res_status (example_html_response 502) = 502
   \<and> error (gen2_settle (Some (fetchMagApi (\<lambda>u i. Inr (example_html_response 502))))
              (example_request 0 1) (fst (gen2_fetch_effect ''key'' view2_init)))
        = Some ''Request failed (-1).''
   \<and> ''Request failed (-1).'' \<noteq> ''Request failed ('' @ show_int 502 @ '').''"
  by (simp add: status_message_def gen2_settle_def view_catch_def
      view_finally_def gen2_chain_def then_do_def example_html_response_def
      try_catch_def gen2_then_response_def gen2_request_def example_request_def
      fetchMagApi_def gen2_fetch_effect_def Let_def view2_init_def abort_current_def
      show_int_def show_nat.simps digit_char_def)

subsection \<open>A failed page\<close>

text \<open>
  C9. In both picker-tab plugins, when the fetch of page \<open>p\<close> fails (the promise chain
  rejects and the request is not aborted), the handlers set the error message, clear
  the has-more flag and end the loading state; the items are left as they were when
  \<open>p\<close> is not 1, and are cleared only when \<open>p\<close> is 1. Nothing else of the view changes.
\<close>

theorem failed_page_keeps_items:
  "(ctl r \<notin> aborted st \<and> gen1_chain r net st = Inl err \<longrightarrow>
      gen1_settle r net st =
        st\<lparr>error := Some (case err of JsError m \<Rightarrow> m | JsOther s \<Rightarrow> ''Request failed.''),
           items := (if at_page r = 1 then [] else items st),
           hasMore := False, loading := False\<rparr>)
   \<and> (ctl r \<notin> aborted st2 \<and> gen2_chain native r st2 = Inl err \<longrightarrow>
      gen2_settle native r st2 =
        st2\<lparr>error := Some (case err of JsError m \<Rightarrow> m | JsOther s \<Rightarrow> ''Request failed.''),
            items := (if at_page r = 1 then [] else items st2),
            hasMore := False, loading := False\<rparr>)"
  by (simp add: gen1_settle_def gen2_settle_def view_catch_def view_finally_def)

text \<open>
  Witness for C9: a grid of two items; the fetch of page 2 fails with a 500 (Generation
  1) and with a missing native helper (Generation 2) and the two items stay; the fetch
  of page 1 fails and the grid is empty.
\<close>

theorem failed_page_keeps_items_witness:
  "items (gen1_settle (example_request 0 2) (Inr (example_error_response 500 ''down''))
            (view_init\<lparr>items := [JNum 1, JNum 2], page := 2, hasMore := True\<rparr>))
     = [JNum 1, JNum 2]
   \<and> items (gen1_settle (example_request 0 1) (Inr (example_error_response 500 ''down''))
            (view_init\<lparr>items := [JNum 1, JNum 2], hasMore := True\<rparr>)) = []
   \<and> items (gen2_settle None (example_request 0 2)
            (view2_init\<lparr>items := [JNum 1, JNum 2], page := 2, hasMore := True\<rparr>))
     = [JNum 1, JNum 2]
   \<and> items (gen2_settle None (example_request 0 1)
            (view2_init\<lparr>items := [JNum 1, JNum 2], hasMore := True\<rparr>)) = []"
proof -
  have c1: "\<And>p st. ctl (example_request 0 p) \<notin> aborted (view_init\<lparr>items := [JNum 1, JNum 2], page := p, hasMore := True\<rparr>)"
    "\<And>p st. ctl (example_request 0 p) \<notin> aborted (view_init\<lparr>items := [JNum 1, JNum 2], hasMore := True\<rparr>)"
    "\<And>p st. ctl (example_request 0 p) \<notin> aborted (view2_init\<lparr>items := [JNum 1, JNum 2], page := p, hasMore := True\<rparr>)"
    "\<And>p st. ctl (example_request 0 p) \<notin> aborted (view2_init\<lparr>items := [JNum 1, JNum 2], hasMore := True\<rparr>)"
    by (simp_all add: view_init_def view2_init_def)
  have g1: "\<And>p st. aborted st = {} \<Longrightarrow>
      gen1_chain (example_request 0 p) (Inr (example_error_response 500 ''down'')) st
        = Inl (JsError (status_message 500))"
    by (simp add: gen1_chain_def fetch_with_signal_def then_do_def gen1_then_response_def
        example_error_response_def)
  have g2: "\<And>p st. gen2_chain None (example_request 0 p) st = Inl (JsError native_missing_message)"
    by (simp add: gen2_chain_def gen2_request_def then_do_def)
  have a: "aborted (view_init\<lparr>items := [JNum 1, JNum 2], page := 2, hasMore := True\<rparr>) = {}"
    "aborted (view_init\<lparr>items := [JNum 1, JNum 2], hasMore := True\<rparr>) = {}"
    by (simp_all add: view_init_def)
  have p: "at_page (example_request 0 2) = 2" "at_page (example_request 0 1) = 1"
    by (simp_all add: example_request_def)
  note T = failed_page_keeps_items
  show ?thesis
    using T[where r = "example_request 0 2" and net = "Inr (example_error_response 500 ''down'')"
          and st = "view_init\<lparr>items := [JNum 1, JNum 2], page := 2, hasMore := True\<rparr>"
          and err = "JsError (status_message 500)", THEN conjunct1]
      T[where r = "example_request 0 1" and net = "Inr (example_error_response 500 ''down'')"
          and st = "view_init\<lparr>items := [JNum 1, JNum 2], hasMore := True\<rparr>"
          and err = "JsError (status_message 500)", THEN conjunct1]
      T[where r = "example_request 0 2" and native = None
          and ?st2.0 = "view2_init\<lparr>items := [JNum 1, JNum 2], page := 2, hasMore := True\<rparr>"
          and err = "JsError native_missing_message", THEN conjunct2]
      T[where r = "example_request 0 1" and native = None
          and ?st2.0 = "view2_init\<lparr>items := [JNum 1, JNum 2], hasMore := True\<rparr>"
          and err = "JsError native_missing_message", THEN conjunct2]
      c1 g1[OF a(1)] g1[OF a(2)] g2 p
    by simp
qed

subsection \<open>The chat-bar modal\<close>

lemma js_trim_blank: "list_all is_js_whitespace q \<Longrightarrow> js_trim q = []"
  by (auto simp: js_trim_def list_all_iff dest: set_dropWhileD)

text \<open>
  C7. In search mode, when the query becomes empty or only white space, the effect
  clears the search results, the has-more flag and the search error, leaves no timeout
  pending and issues no request, then or when a timeout would fire; nothing else of the
  modal changes.
\<close>

theorem blank_query_clears_without_request:
  assumes "mode st = Search" and "list_all is_js_whitespace q"
  shows "on_query_change q st =
           st\<lparr>query := q, timer := None, searchResults := [], searchHasMore := False,
              searchError := None\<rparr>
       \<and> api_calls (on_query_change q st) = api_calls st
       \<and> timer_fires base key (on_query_change q st) = on_query_change q st"
  using assms
  by (simp add: on_query_change_def search_effect_def search_effect_cleanup_def
      js_trim_blank timer_fires_def)

text \<open>
  Witness for C7: results, a has-more flag, an error and a pending timeout are on
  screen for the query \<^verbatim>\<open>"a"\<close>; the query becomes a space, a tab and a no-break space.
\<close>

theorem blank_query_clears_without_request_witness:
  "(let st = modal_init\<lparr>query := [97], searchResults := [example_gif 1],
                searchHasMore := True, searchError := Some ''old'', timer := Some (350, [97])\<rparr>;
        st' = on_query_change [32, 9, 160] st
    in searchResults st' = [] \<and> \<not> searchHasMore st' \<and> searchError st' = None
       \<and> timer st' = None \<and> api_calls st' = []
       \<and> api_calls (timer_fires ''https://www.midevelopment.de'' ''key'' st') = [])"
proof -
  define st where
    "st = modal_init\<lparr>query := [97], searchResults := [example_gif 1],
            searchHasMore := True, searchError := Some ''old'', timer := Some (350, [97])\<rparr>"
  have m: "mode st = Search" and a: "api_calls st = []"
    by (simp_all add: st_def modal_init_def)
  have w: "list_all is_js_whitespace [32, 9, 160]"
    by (simp add: is_js_whitespace_def)
  have "searchResults (on_query_change [32, 9, 160] st) = []
      \<and> \<not> searchHasMore (on_query_change [32, 9, 160] st)
      \<and> searchError (on_query_change [32, 9, 160] st) = None
      \<and> timer (on_query_change [32, 9, 160] st) = None
      \<and> api_calls (on_query_change [32, 9, 160] st) = []
      \<and> api_calls (timer_fires ''https://www.midevelopment.de'' ''key''
            (on_query_change [32, 9, 160] st)) = []"
  proof -
    note T = blank_query_clears_without_request[OF m w,
        of "''https://www.midevelopment.de''" "''key''"]
    have A: "on_query_change [32, 9, 160] st =
               st\<lparr>query := [32, 9, 160], timer := None, searchResults := [],
                  searchHasMore := False, searchError := None\<rparr>"
      and B: "api_calls (on_query_change [32, 9, 160] st) = api_calls st"
      and C: "timer_fires ''https://www.midevelopment.de'' ''key''
                (on_query_change [32, 9, 160] st) = on_query_change [32, 9, 160] st"
      using T by blast+
    show ?thesis
      by (simp only: C B a) (simp add: A)
  qed
  then show ?thesis
    by (simp add: Let_def st_def)
qed

text \<open>
  C10. With no current channel, \<^verbatim>\<open>handleSend\<close> of the chat-bar modal changes nothing: no
  message is sent, nothing is shown, the modal stays open and its state is as it was.
  \<^verbatim>\<open>onSend\<close> of the picker-tab plugins, with no selected channel, shows the failure toast
  \<^verbatim>\<open>No channel selected.\<close>, sends nothing and leaves the picker open.
\<close>

theorem send_without_channel:
  "handleSend None gif st = st
   \<and> onSend None g h =
       h\<lparr>toasts := toasts h @
            [\<lparr>toast_message = ''No channel selected.'', toast_kind = Failure\<rparr>]\<rparr>
   \<and> picker_sent (onSend None g h) = picker_sent h
   \<and> picker_open (onSend None g h) = picker_open h"
  by (simp add: handleSend_def onSend_def)

text \<open>
  C4, evaluated. A search result is on screen and its preview handle \<^verbatim>\<open>blob:1\<close> has
  been created; then the API key (or the base URL) changes. The preview table and the
  results are cleared, but the handle is not revoked, and since the ref now holds the
  empty table it is not revoked when the modal is closed either.
\<close>

theorem preview_handle_not_revoked:
  "(let s1 = preview_created 1 ''blob:1'' (modal_init\<lparr>searchResults := [example_gif 1]\<rparr>);
        s2 = credentials_changed s1;
        s3 = unmount_cleanup s2
    in previewUrls s1 = [(1, ''blob:1'')] \<and> revoked (unmount_cleanup s1) = [''blob:1'']
       \<and> previewUrls s2 = [] \<and> searchResults s2 = []
       \<and> ''blob:1'' \<notin> set (revoked s2) \<and> ''blob:1'' \<notin> set (revoked s3))"
  by (simp add: Let_def preview_created_def credentials_changed_def unmount_cleanup_def
      credentials_effect_def preview_ref_effect_def modal_init_def)


subsection \<open>The tab injection engine\<close>

text \<open>
  C3, evaluated. In the example picker the emoji panel is kept out of sight by the host
  with an inline \<^verbatim>\<open>display: none\<close> and has no \<^verbatim>\<open>hidden\<close> attribute. The plugin starts,
  the user clicks the synthetic tab (element 6) and then the host's emoji tab (element
  3). The GIF panel (element 4) is back to what it was, but the emoji panel (element 5)
  still carries the \<^verbatim>\<open>hidden\<close> attribute the activation added, and the
  \<^verbatim>\<open>data-vc-mam-hidden\<close> marker: its saved state is only restored inside the branch taken
  when \<^verbatim>\<open>data-vc-mam-display\<close> was saved, which it is not for a panel whose display was
  already \<^verbatim>\<open>none\<close>.
\<close>

theorem deactivation_leaves_hidden_on_display_none_panel:
  "(let st1 = start example_engine;
        st2 = user_click 6 st1;
        st3 = user_click 3 st2
    in display (props_of 5 (doc st1)) = ''none''
       \<and> \<not> hasAttribute ''hidden'' (props_of 5 (doc st1))
       \<and> \<not> hasAttribute ''data-vc-mam-hidden'' (props_of 5 (doc st1))
       \<and> hasAttribute ''hidden'' (props_of 5 (doc st2))
       \<and> display (props_of 5 (doc st3)) = ''none''
       \<and> hasAttribute ''hidden'' (props_of 5 (doc st3))
       \<and> getAttribute ''data-vc-mam-hidden'' (props_of 5 (doc st3)) = Some ''0''
       \<and> props_of 4 (doc st3) = props_of 4 (doc st1))"
  by code_simp

text \<open>
  C1, evaluated. In the example picker the plugin starts, the user clicks the synthetic
  tab (element 6), and the plugin stops. The synthetic tab and panel are gone, no
  listener or cleanup is left, the tab list has its attributes back and the GIF panel
  (element 4) its inline display; but the GIF panel keeps the \<^verbatim>\<open>hidden\<close> attribute and
  the \<^verbatim>\<open>data-vc-mam-hidden\<close> marker that the activation added, so the document is not
  what it was before the plugin started.
\<close>

theorem stop_leaves_hidden_attribute:
  "(let st1 = start example_engine;
        st2 = stop (user_click 6 st1)
    in listeners st2 = [] \<and> cleanupFns st2 = [] \<and> mamRoots st2 = [] \<and> \<not> observing st2
       \<and> filter (\<lambda>n. hasAttribute MAM_TAB_ATTR (snd n)) (nodes (doc st2)) = []
       \<and> filter (\<lambda>n. hasAttribute MAM_PANEL_ATTR (snd n)) (nodes (doc st2)) = []
       \<and> props_of 1 (doc st2) = props_of 1 example_doc
       \<and> display (props_of 4 (doc st2)) = display (props_of 4 example_doc)
       \<and> \<not> hasAttribute ''hidden'' (props_of 4 example_doc)
       \<and> hasAttribute ''hidden'' (props_of 4 (doc st2))
       \<and> \<not> hasAttribute ''data-vc-mam-hidden'' (props_of 4 example_doc)
       \<and> getAttribute ''data-vc-mam-hidden'' (props_of 4 (doc st2)) = Some ''0''
       \<and> doc st2 \<noteq> example_doc)"
  by code_simp

subsection \<open>Idempotence of the scan\<close>

lemma map_fst_located_from:
  "map fst (located_from a e) = map fst (located_from b e)"
proof (induction e arbitrary: a b)
  case (Element i p ks)
  have "concat (map (\<lambda>k. map fst (located_from ((i, p) # a) k)) ks)
      = concat (map (\<lambda>k. map fst (located_from ((i, p) # b) k)) ks)"
    by (rule arg_cong[where f = concat], rule map_cong[OF refl], rule Element.IH, assumption)
  then show ?case by (simp add: map_concat comp_def)
qed

lemma nodes_Element:
  "nodes (Element i p ks) = (i, p) # concat (map nodes ks)"
proof -
  have "concat (map (\<lambda>k. map fst (located_from [(i, p)] k)) ks) = concat (map nodes ks)"
    unfolding nodes_def located_def
    by (rule arg_cong[where f = concat], rule map_cong[OF refl], rule map_fst_located_from)
  then show ?thesis by (simp add: nodes_def[of "Element i p ks"] located_def map_concat comp_def)
qed

lemma eids_Element: "eids (Element i p ks) = i # concat (map eids ks)"
  by (simp add: eids_def[abs_def] nodes_Element map_concat comp_def)

lemma map_fst_fst_located_from: "map (\<lambda>l. fst (fst l)) (located_from a e) = eids e"
proof -
  have "map (\<lambda>l. fst (fst l)) (located_from a e) = map fst (map fst (located_from a e))"
    by (simp add: comp_def)
  also have "\<dots> = map fst (map fst (located_from [] e))"
    by (simp only: map_fst_located_from[of a e "[]"])
  finally show ?thesis by (simp add: eids_def nodes_def located_def)
qed

lemma located_from_update_props:
  "located_from (map (touch i f) ancs) (update_props i f e)
     = map (touch_located i f) (located_from ancs e)"
proof (induction e arbitrary: ancs)
  case (Element j p ks)
  let ?q = "if i = j then f p else p"
  have q: "touch i f (j, p) = (j, ?q)"
    by (auto simp: touch_def)
  have c: "concat (map (\<lambda>k. located_from ((j, ?q) # map (touch i f) ancs) (update_props i f k)) ks)
      = concat (map (\<lambda>k. map (touch_located i f) (located_from ((j, p) # ancs) k)) ks)"
  proof (rule arg_cong[where f = concat], rule map_cong[OF refl])
    fix k assume "k \<in> set ks"
    from Element.IH[OF this, of "(j, p) # ancs"]
    show "located_from ((j, ?q) # map (touch i f) ancs) (update_props i f k)
        = map (touch_located i f) (located_from ((j, p) # ancs) k)"
      by (simp only: list.map q)
  qed
  have h: "touch_located i f ((j, p), ancs) = ((j, ?q), map (touch i f) ancs)"
    by (simp add: touch_located_def q)
  show ?case
    by (simp add: c h map_concat comp_def)
qed

lemma located_update_props:
  "located (update_props i f d) = map (touch_located i f) (located d)"
  using located_from_update_props[of i f "[]" d] by (simp add: located_def)

lemma update_props_twice:
  "update_props i g (update_props i f e) = update_props i (g \<circ> f) e"
  by (induction e) auto

lemma append_child_absent: "i \<notin> set (eids e) \<Longrightarrow> append_child i c e = e"
proof (induction e)
  case (Element j p ks)
  then have "map (append_child i c) ks = ks"
    by (intro map_idI) (auto simp: eids_Element)
  with Element.prems show ?case by (simp add: eids_Element)
qed

lemma located_from_append_child:
  assumes "distinct (eids e)" and "i \<in> set (eids e)"
  shows "\<exists>xs ys p ancs'. located_from ancs e = xs @ ys
           \<and> ((i, p), ancs') \<in> set (located_from ancs e)
           \<and> located_from ancs (append_child i (Element m mp []) e)
               = xs @ [((m, mp), (i, p) # ancs')] @ ys"
  using assms
proof (induction e arbitrary: ancs)
  case (Element j p ks)
  show ?case
  proof (cases "i = j")
    case True
    have "\<And>k. k \<in> set ks \<Longrightarrow> i \<notin> set (eids k)"
      using Element.prems(1) True by (auto simp: eids_Element)
    then have "map (append_child i (Element m mp [])) ks = ks"
      by (intro map_idI) (simp add: append_child_absent)
    then have "located_from ancs (append_child i (Element m mp []) (Element j p ks))
             = located_from ancs (Element j p ks) @ [((m, mp), (i, p) # ancs)] @ []"
      using True by simp
    moreover have "((i, p), ancs) \<in> set (located_from ancs (Element j p ks))"
      using True by simp
    ultimately show ?thesis
      by (metis append_Nil2)
  next
    case False
    then obtain k0 where k0: "k0 \<in> set ks" "i \<in> set (eids k0)"
      using Element.prems(2) by (auto simp: eids_Element)
    then obtain ks1 ks2 where ks: "ks = ks1 @ k0 # ks2"
      by (meson split_list)
    have d: "distinct (concat (map eids ks1) @ eids k0 @ concat (map eids ks2))"
      using Element.prems(1) by (simp add: eids_Element ks)
    then have dk0: "distinct (eids k0)" by simp
    have out1: "\<And>k. k \<in> set ks1 \<Longrightarrow> i \<notin> set (eids k)"
      using d k0(2) by auto
    have out2: "\<And>k. k \<in> set ks2 \<Longrightarrow> i \<notin> set (eids k)"
      using d k0(2) by auto
    have m1: "map (append_child i (Element m mp [])) ks1 = ks1"
      by (intro map_idI) (simp add: append_child_absent out1)
    have m2: "map (append_child i (Element m mp [])) ks2 = ks2"
      by (intro map_idI) (simp add: append_child_absent out2)
    from Element.IH[OF k0(1) dk0 k0(2), of "(j, p) # ancs"]
    obtain xs ys q ancs' where
      ih: "located_from ((j, p) # ancs) k0 = xs @ ys"
          "((i, q), ancs') \<in> set (located_from ((j, p) # ancs) k0)"
          "located_from ((j, p) # ancs) (append_child i (Element m mp []) k0)
             = xs @ [((m, mp), (i, q) # ancs')] @ ys"
      by blast
    let ?pre = "((j, p), ancs) # concat (map (located_from ((j, p) # ancs)) ks1) @ xs"
    let ?post = "ys @ concat (map (located_from ((j, p) # ancs)) ks2)"
    have "located_from ancs (Element j p ks) = ?pre @ ?post"
      using ih(1) by (simp add: ks)
    moreover have "((i, q), ancs') \<in> set (located_from ancs (Element j p ks))"
      using ih(2) by (simp add: ks)
    moreover have "located_from ancs (append_child i (Element m mp []) (Element j p ks))
        = ?pre @ [((m, mp), (i, q) # ancs')] @ ?post"
      using False ih(3) by (simp add: ks m1 m2)
    ultimately show ?thesis by blast
  qed
qed

lemma find_map_option: "find P (map f xs) = map_option f (find (\<lambda>x. P (f x)) xs)"
  by (induction xs) auto

lemma find_append:
  "find P (xs @ ys) = (case find P xs of Some x \<Rightarrow> Some x | None \<Rightarrow> find P ys)"
  by (induction xs) auto

lemma getAttribute_setAttribute:
  "getAttribute k (setAttribute k' v p) = (if k = k' then Some v else getAttribute k p)"
  by (simp add: getAttribute_def setAttribute_def update_conv')

lemma getAttribute_removeAttribute:
  "getAttribute k (removeAttribute k' p) = (if k = k' then None else getAttribute k p)"
  by (simp add: getAttribute_def removeAttribute_def delete_conv')

lemma hasAttribute_getAttribute: "hasAttribute k p = (getAttribute k p \<noteq> None)"
  by (simp add: hasAttribute_def getAttribute_def)

lemma getAttribute_cong_classList [simp]:
  "getAttribute k (p\<lparr>classList := c\<rparr>) = getAttribute k p"
  "getAttribute k (p\<lparr>textContent := t\<rparr>) = getAttribute k p"
  "getAttribute k (p\<lparr>display := x\<rparr>) = getAttribute k p"
  by (simp_all add: getAttribute_def)

lemma attr_names_distinct:
  "MAM_BOUND_ATTR \<noteq> ''role''" "MAM_PANEL_ID_ATTR \<noteq> ''role''" "MAM_TAB_ID_ATTR \<noteq> ''role''"
  "MAM_BOUND_ATTR \<noteq> ''id''" "MAM_PANEL_ID_ATTR \<noteq> ''id''" "MAM_TAB_ID_ATTR \<noteq> ''id''"
  "MAM_BOUND_ATTR \<noteq> ''aria-controls''" "MAM_PANEL_ID_ATTR \<noteq> ''aria-controls''"
  "MAM_TAB_ID_ATTR \<noteq> ''aria-controls''"
  "MAM_BOUND_ATTR \<noteq> MAM_TAB_ATTR" "MAM_PANEL_ID_ATTR \<noteq> MAM_TAB_ATTR"
  "MAM_TAB_ID_ATTR \<noteq> MAM_TAB_ATTR"
  "MAM_BOUND_ATTR \<noteq> MAM_PANEL_ATTR" "MAM_PANEL_ID_ATTR \<noteq> MAM_PANEL_ATTR"
  "MAM_TAB_ID_ATTR \<noteq> MAM_PANEL_ATTR"
  "MAM_BOUND_ATTR \<noteq> MAM_PANEL_ID_ATTR" "MAM_BOUND_ATTR \<noteq> MAM_TAB_ID_ATTR"
  "MAM_PANEL_ID_ATTR \<noteq> MAM_TAB_ID_ATTR"
  by (simp_all add: MAM_BOUND_ATTR_def MAM_PANEL_ID_ATTR_def MAM_TAB_ID_ATTR_def
      MAM_TAB_ATTR_def MAM_PANEL_ATTR_def)

lemma plugin_attrs_only_keeps:
  assumes "plugin_attrs_only f"
  shows "is_tablist (f p) = is_tablist p" and "is_tab (f p) = is_tab p"
    and "controls pid (f p) = controls pid p" and "is_picker_panel (f p) = is_picker_panel p"
    and "element_id (f p) = element_id p"
    and "hasAttribute MAM_TAB_ATTR (f p) = hasAttribute MAM_TAB_ATTR p"
    and "hasAttribute MAM_PANEL_ATTR (f p) = hasAttribute MAM_PANEL_ATTR p"
  using assms attr_names_distinct
  by (simp_all add: plugin_attrs_only_def is_tablist_def is_tab_def controls_def
      is_picker_panel_def element_id_def hasAttribute_getAttribute)

lemma touch_keeps:
  assumes "plugin_attrs_only f"
  shows "fst (touch i f n) = fst n"
    and "is_tablist (snd (touch i f n)) = is_tablist (snd n)"
    and "is_tab (snd (touch i f n)) = is_tab (snd n)"
    and "controls pid (snd (touch i f n)) = controls pid (snd n)"
    and "is_picker_panel (snd (touch i f n)) = is_picker_panel (snd n)"
    and "element_id (snd (touch i f n)) = element_id (snd n)"
    and "hasAttribute MAM_TAB_ATTR (snd (touch i f n)) = hasAttribute MAM_TAB_ATTR (snd n)"
    and "hasAttribute MAM_PANEL_ATTR (snd (touch i f n)) = hasAttribute MAM_PANEL_ATTR (snd n)"
  using plugin_attrs_only_keeps[OF assms] by (simp_all add: touch_def)

lemma tab_list_of_touch:
  assumes "plugin_attrs_only f"
  shows "tab_list_of (touch_located i f l) = tab_list_of l"
proof -
  have f: "find (\<lambda>n. is_tablist (snd n)) (map (touch i f) ns)
         = map_option (touch i f) (find (\<lambda>n. is_tablist (snd n)) ns)" for ns
    by (simp add: find_map_option touch_keeps[OF assms])
  show ?thesis
    using f[of "fst l # snd l"]
    by (cases "snd l")
       (auto simp: tab_list_of_def touch_located_def touch_keeps[OF assms] split: option.splits)
qed

lemma controlling_tab_touch:
  assumes "plugin_attrs_only f"
  shows "controlling_tab (map (touch_located i f) every) pid
       = map_option (touch_located i f) (controlling_tab every pid)"
  by (simp add: controlling_tab_def find_map_option touch_located_def touch_keeps[OF assms]
      split: option.splits)

lemma resolved_inI:
  "l \<in> set every \<Longrightarrow> is_picker_panel (snd (fst l))
     \<Longrightarrow> controlling_tab every (element_id (snd (fst l))) = Some tab
     \<Longrightarrow> tab_list_of tab = Some t \<Longrightarrow> t \<in> resolved_in every"
  unfolding resolved_in_def by blast

lemma resolved_inE:
  assumes "t \<in> resolved_in every"
  obtains l tab where "l \<in> set every" "is_picker_panel (snd (fst l))"
    "controlling_tab every (element_id (snd (fst l))) = Some tab" "tab_list_of tab = Some t"
  using assms unfolding resolved_in_def by blast

lemma resolved_in_touch:
  assumes "plugin_attrs_only f"
  shows "resolved_in (map (touch_located i f) every) = resolved_in every"
proof (intro set_eqI iffI)
  fix t assume "t \<in> resolved_in (map (touch_located i f) every)"
  then obtain l' tab' where
    l': "l' \<in> set (map (touch_located i f) every)" "is_picker_panel (snd (fst l'))"
    and c: "controlling_tab (map (touch_located i f) every) (element_id (snd (fst l'))) = Some tab'"
    and t: "tab_list_of tab' = Some t"
    unfolding resolved_in_def by blast
  from l'(1) obtain l where l: "l \<in> set every" "l' = touch_located i f l" by auto
  from c obtain tab where tab: "controlling_tab every (element_id (snd (fst l'))) = Some tab"
      "tab' = touch_located i f tab"
    by (auto simp: controlling_tab_touch[OF assms])
  have "is_picker_panel (snd (fst l))" "element_id (snd (fst l')) = element_id (snd (fst l))"
    using l'(2) l(2) by (simp_all add: touch_located_def touch_keeps[OF assms])
  moreover have "tab_list_of tab = Some t"
    using t tab(2) by (simp add: tab_list_of_touch[OF assms])
  ultimately show "t \<in> resolved_in every"
    using l(1) tab(1) by (intro resolved_inI[of l every tab t]) simp_all
next
  fix t assume "t \<in> resolved_in every"
  then obtain l tab where
    l: "l \<in> set every" "is_picker_panel (snd (fst l))"
    and c: "controlling_tab every (element_id (snd (fst l))) = Some tab"
    and t: "tab_list_of tab = Some t"
    unfolding resolved_in_def by blast
  let ?l = "touch_located i f l"
  have "?l \<in> set (map (touch_located i f) every)" using l(1) by simp
  moreover have "is_picker_panel (snd (fst ?l))"
      and e: "element_id (snd (fst ?l)) = element_id (snd (fst l))"
    using l(2) by (simp_all add: touch_located_def touch_keeps[OF assms])
  moreover have "controlling_tab (map (touch_located i f) every) (element_id (snd (fst ?l)))
      = Some (touch_located i f tab)"
    using c by (simp add: controlling_tab_touch[OF assms] e)
  moreover have "tab_list_of (touch_located i f tab) = Some t"
    using t by (simp add: tab_list_of_touch[OF assms])
  ultimately show "t \<in> resolved_in (map (touch_located i f) every)"
    by (blast intro: resolved_inI)
qed

declare show_nat.simps [simp del]

lemma find_insert_cases:
  "find P (xs @ [x] @ ys) = Some r \<Longrightarrow> r = x \<or> find P (xs @ ys) = Some r"
  by (auto simp: find_append split: option.splits if_splits)

lemma find_insert_None: "find P (xs @ [x] @ ys) = None \<Longrightarrow> find P (xs @ ys) = None"
  by (auto simp: find_append split: option.splits if_splits)

lemma find_insert_skip: "\<not> P x \<Longrightarrow> find P (xs @ [x] @ ys) = find P (xs @ ys)"
  by (auto simp: find_append split: option.splits)

lemma controlling_tab_insert:
  assumes "controlling_tab (xs @ [x] @ ys) pid = Some r"
  shows "r = x \<or> controlling_tab (xs @ ys) pid = Some r"
proof (cases "find (\<lambda>l. is_tab (snd (fst l)) \<and> controls pid (snd (fst l))) (xs @ [x] @ ys)")
  case None
  then have r: "find (\<lambda>l. controls pid (snd (fst l))) (xs @ [x] @ ys) = Some r"
    using assms by (simp add: controlling_tab_def)
  from find_insert_None[OF None] find_insert_cases[OF r] show ?thesis
    by (auto simp: controlling_tab_def)
next
  case (Some t)
  then have "r = t" using assms by (simp add: controlling_tab_def)
  with find_insert_cases[OF Some] show ?thesis
    by (auto simp: controlling_tab_def)
qed

lemma tab_list_of_new:
  assumes "\<not> is_tablist mp"
    and "is_tablist pT \<or> (\<forall>a \<in> set ancsT. \<not> is_tablist (snd a))"
  shows "tab_list_of ((m, mp), (t, pT) # ancsT) = Some t"
proof (cases "is_tablist pT")
  case True
  with assms(1) show ?thesis by (simp add: tab_list_of_def)
next
  case False
  with assms(2) have "find (\<lambda>n. is_tablist (snd n)) ancsT = None"
    by (auto simp: find_None_iff)
  with False assms(1) show ?thesis by (simp add: tab_list_of_def)
qed

lemma resolved_in_insert:
  assumes "\<not> is_picker_panel mp" and "\<not> is_tablist mp"
    and "is_tablist pT \<or> (\<forall>a \<in> set ancsT. \<not> is_tablist (snd a))"
  shows "resolved_in (xs @ [((m, mp), (t, pT) # ancsT)] @ ys) \<subseteq> insert t (resolved_in (xs @ ys))"
proof
  let ?new = "((m, mp), (t, pT) # ancsT)"
  fix u assume "u \<in> resolved_in (xs @ [?new] @ ys)"
  then obtain l tab where l: "l \<in> set (xs @ [?new] @ ys)" "is_picker_panel (snd (fst l))"
    and c: "controlling_tab (xs @ [?new] @ ys) (element_id (snd (fst l))) = Some tab"
    and u: "tab_list_of tab = Some u"
    by (rule resolved_inE)
  from l assms(1) have l': "l \<in> set (xs @ ys)" by auto
  from controlling_tab_insert[OF c] show "u \<in> insert t (resolved_in (xs @ ys))"
  proof
    assume "tab = ?new"
    with u tab_list_of_new[OF assms(2,3), of m t] show ?thesis by simp
  next
    assume "controlling_tab (xs @ ys) (element_id (snd (fst l))) = Some tab"
    from resolved_inI[OF l' l(2) this u] show ?thesis by simp
  qed
qed

lemma tl_closed_in_mono: "set every \<subseteq> set every' \<Longrightarrow> tl_closed_in every t \<Longrightarrow> tl_closed_in every' t"
  unfolding tl_closed_in_def by blast

lemma tl_closed_in_touch:
  assumes "plugin_attrs_only f" and "tl_closed_in every t"
  shows "tl_closed_in (map (touch_located i f) every) t"
proof -
  from assms(2) obtain p ancs where m: "((t, p), ancs) \<in> set every"
    and c: "is_tablist p \<or> (\<forall>a \<in> set ancs. \<not> is_tablist (snd a))"
    unfolding tl_closed_in_def by blast
  let ?n = "touch i f (t, p)"
  have "touch_located i f ((t, p), ancs) \<in> set (map (touch_located i f) every)"
    using m by simp
  then have "((t, snd ?n), map (touch i f) ancs) \<in> set (map (touch_located i f) every)"
    by (simp add: touch_located_def touch_def)
  moreover have "is_tablist (snd ?n) \<or> (\<forall>a \<in> set (map (touch i f) ancs). \<not> is_tablist (snd a))"
    using c by (auto simp: touch_keeps[OF assms(1)])
  ultimately show ?thesis
    unfolding tl_closed_in_def by blast
qed

lemma locate_update_props:
  "locate j (update_props i f d) = map_option (touch_located i f) (locate j d)"
  by (simp add: locate_def located_update_props find_map_option touch_located_def touch_def)

lemma props_of_update_props:
  "props_of j (update_props i f d) =
     (case locate j d of None \<Rightarrow> no_props
      | Some l \<Rightarrow> if j = i then f (props_of j d) else props_of j d)"
proof -
  have "\<And>l. locate j d = Some l \<Longrightarrow> fst (fst l) = j"
    by (auto simp: locate_def find_Some_iff)
  then show ?thesis
    by (auto simp: props_of_def locate_update_props touch_located_def touch_def
        split: option.splits)
qed

lemma locate_in_eids: "(locate j d \<noteq> None) = (j \<in> set (eids d))"
proof -
  have "set (eids d) = (\<lambda>l. fst (fst l)) ` set (located d)"
    by (simp add: eids_def nodes_def image_image)
  then show ?thesis
    by (force simp: locate_def find_None_iff)
qed

lemma eids_update_props: "eids (update_props i f d) = eids d"
proof -
  have "eids (update_props i f d) = map (\<lambda>l. fst (fst l)) (located (update_props i f d))"
    by (simp add: eids_def nodes_def)
  also have "\<dots> = map (\<lambda>l. fst (fst l)) (located d)"
    by (simp add: located_update_props touch_located_def touch_def)
  finally show ?thesis by (simp add: eids_def nodes_def)
qed

lemma located_append_child:
  assumes "distinct (eids d)" and "i \<in> set (eids d)"
  obtains xs ys p ancs where "located d = xs @ ys" "((i, p), ancs) \<in> set (located d)"
    "located (append_child i (Element m mp []) d) = xs @ [((m, mp), (i, p) # ancs)] @ ys"
  using located_from_append_child[OF assms, of "[]" m mp] unfolding located_def by blast

lemma show_nat_digits: "set (show_nat n) \<subseteq> set ''0123456789''"
proof (induction n rule: show_nat.induct)
  case (1 n)
  have d: "\<And>k. k < 10 \<Longrightarrow> digit_char k \<in> set ''0123456789''"
    by (auto simp: digit_char_def)
  show ?case
  proof (cases "n < 10")
    case True
    then show ?thesis using d[of n] by (subst show_nat.simps) simp
  next
    case False
    then show ?thesis
      using 1 d[of "n mod 10"] by (subst show_nat.simps) auto
  qed
qed

lemma includes_str_head:
  "needle \<noteq> [] \<Longrightarrow> hd needle \<notin> set hay \<Longrightarrow> \<not> includes_str needle hay"
proof (induction hay)
  case Nil then show ?case by simp
next
  case (Cons c cs)
  then have "take (length needle) (c # cs) \<noteq> needle"
    by (cases needle) auto
  with Cons show ?case by simp
qed

lemma mam_tab_id_not_panel:
  "\<not> includes_str ''picker-tab-panel'' (''mam-picker-tab-'' @ show_nat n)"
proof -
  let ?ds = "show_nat n"
  have p: "CHR ''p'' \<notin> set ?ds"
    using show_nat_digits[of n] by auto
  have tail: "\<not> includes_str ''picker-tab-panel'' ?ds"
    using p by (intro includes_str_head) simp_all
  have "take k ?ds \<noteq> ''panel''" for k
  proof
    assume "take k ?ds = ''panel''"
    then have "CHR ''p'' \<in> set (take k ?ds)" by simp
    then show False using p by (meson in_set_takeD)
  qed
  then show ?thesis
    using tail by simp
qed

lemma props_of_present:
  "i \<in> set (eids d) \<Longrightarrow> props_of i (update_props i f d) = f (props_of i d)"
  using locate_in_eids[of i d] by (auto simp: props_of_update_props split: option.splits)

lemma injectMamTab_bound: "bound_at (tabList e) (doc st) \<Longrightarrow> injectMamTab e st = st"
  by (simp add: injectMamTab_def bound_at_def)

lemma injectMamTab_unbound:
  assumes "tabList e \<in> set (eids (doc st))" and "\<not> bound_at (tabList e) (doc st)"
    and "\<not> hasAttribute MAM_PANEL_ID_ATTR (props_of (tabList e) (doc st))"
  defines "n \<equiv> Suc (panelIdCounter st)"
  defines "d2 \<equiv> update_props (tabList e) (bind_attrs n) (doc st)"
  shows "doc (injectMamTab e st) =
           append_child (tabList e)
             (Element (next_eid st)
                (mam_tab_props (getActiveClassNames (tabList e) (sampleTab e) d2) n
                   (props_of (sampleTab e) d2)) []) d2"
    and "next_eid (injectMamTab e st) = Suc (next_eid st)"
proof -
  let ?T = "tabList e"
  let ?st1 = "st\<lparr>doc := update_props ?T (setAttribute MAM_BOUND_ATTR ''true'') (doc st)\<rparr>"
  have p1: "props_of ?T (update_props ?T (setAttribute MAM_BOUND_ATTR ''true'') (doc st))
            = setAttribute MAM_BOUND_ATTR ''true'' (props_of ?T (doc st))"
    using assms(1) by (simp add: props_of_present)
  have none: "getAttribute MAM_PANEL_ID_ATTR (props_of ?T (doc ?st1)) = None"
    using assms(3) attr_names_distinct
    by (simp add: p1 getAttribute_setAttribute hasAttribute_getAttribute)
  have g: "getMamIds ?T ?st1 =
      ((''mam-picker-tab-panel-'' @ show_nat n, ''mam-picker-tab-'' @ show_nat n),
       ?st1\<lparr>panelIdCounter := n, doc := d2\<rparr>)"
    unfolding getMamIds_def Let_def none
    by (simp add: n_def d2_def update_props_twice bind_attrs_def[abs_def] comp_def)
  show "doc (injectMamTab e st) =
           append_child (tabList e)
             (Element (next_eid st)
                (mam_tab_props (getActiveClassNames (tabList e) (sampleTab e) d2) n
                   (props_of (sampleTab e) d2)) []) d2"
    using assms(2) unfolding injectMamTab_def Let_def g bound_at_def
    by (simp add: mam_tab_props_def)
  show "next_eid (injectMamTab e st) = Suc (next_eid st)"
    using assms(2) unfolding injectMamTab_def Let_def g bound_at_def
    by simp
qed

lemma plugin_attrs_only_bind: "plugin_attrs_only (bind_attrs n)"
  by (simp add: plugin_attrs_only_def bind_attrs_def getAttribute_setAttribute)

lemma bind_attrs_bound: "hasAttribute MAM_BOUND_ATTR (bind_attrs n p)"
  using attr_names_distinct
  by (simp add: bind_attrs_def hasAttribute_getAttribute getAttribute_setAttribute)

lemma getAttribute_mam_tab_props:
  "getAttribute k (mam_tab_props names n p) =
     (if k = ''tabindex'' then Some ''-1''
      else if k = ''aria-current'' then None
      else if k = ''aria-selected'' then Some ''false''
      else if k = ''id'' then Some (''mam-picker-tab-'' @ show_nat n)
      else if k = ''aria-controls'' then Some (''mam-picker-tab-panel-'' @ show_nat n)
      else if k = ''role'' then Some ''tab''
      else if k = MAM_TAB_ATTR then Some []
      else getAttribute k p)"
  by (simp add: mam_tab_props_def setTabActiveState_def Let_def getAttribute_setAttribute
      getAttribute_removeAttribute)

lemma mam_tab_props_facts:
  shows "\<not> is_tablist (mam_tab_props names n p)"
    and "\<not> is_picker_panel (mam_tab_props names n p)"
    and "hasAttribute MAM_TAB_ATTR (mam_tab_props names n p)"
    and "hasAttribute MAM_BOUND_ATTR (mam_tab_props names n p) = hasAttribute MAM_BOUND_ATTR p"
    and "hasAttribute MAM_PANEL_ID_ATTR (mam_tab_props names n p) = hasAttribute MAM_PANEL_ID_ATTR p"
    and "hasAttribute MAM_TAB_ID_ATTR (mam_tab_props names n p) = hasAttribute MAM_TAB_ID_ATTR p"
    and "hasAttribute MAM_PANEL_ATTR (mam_tab_props names n p) = hasAttribute MAM_PANEL_ATTR p"
  using mam_tab_id_not_panel[of n]
  by (simp_all add: is_tablist_def is_picker_panel_def hasAttribute_getAttribute
      getAttribute_mam_tab_props MAM_TAB_ATTR_def MAM_BOUND_ATTR_def MAM_PANEL_ID_ATTR_def
      MAM_TAB_ID_ATTR_def MAM_PANEL_ATTR_def)

lemma props_of_cases: "props_of i d = no_props \<or> (i, props_of i d) \<in> set (nodes d)"
proof (cases "locate i d")
  case None
  then show ?thesis by (simp add: props_of_def)
next
  case (Some l)
  then have "l \<in> set (located d)" "fst (fst l) = i"
    by (auto simp: locate_def find_Some_iff)
  then have "(i, snd (fst l)) \<in> set (nodes d)"
    by (force simp: nodes_def)
  with Some show ?thesis by (simp add: props_of_def)
qed

lemma props_of_member:
  assumes "i \<in> set (eids d)"
  shows "(i, props_of i d) \<in> set (nodes d)"
proof -
  from assms locate_in_eids[of i d] obtain l where l: "locate i d = Some l" by auto
  then have "l \<in> set (located d)" "fst (fst l) = i"
    by (auto simp: locate_def find_Some_iff)
  then have "(i, snd (fst l)) \<in> set (nodes d)"
    by (force simp: nodes_def)
  with l show ?thesis by (simp add: props_of_def)
qed

lemma no_props_no_attr: "\<not> hasAttribute k no_props"
  by (simp add: hasAttribute_def no_props_def)

lemma nodes_update_props: "nodes (update_props i f d) = map (touch i f) (nodes d)"
  by (simp add: nodes_def located_update_props touch_located_def comp_def)

lemma inject_structure:
  assumes wf: "wf_engine st" and iib: "ids_imply_bound (doc st)"
    and present: "tabList e \<in> set (eids (doc st))"
    and unbound: "\<not> bound_at (tabList e) (doc st)"
  obtains xs ys n mp pT ancsT where
    "map (touch_located (tabList e) (bind_attrs n)) (located (doc st)) = xs @ ys"
    "((tabList e, pT), ancsT) \<in> set (xs @ ys)"
    "located (doc (injectMamTab e st)) = xs @ [((next_eid st, mp), (tabList e, pT) # ancsT)] @ ys"
    "\<not> is_tablist mp" "\<not> is_picker_panel mp" "hasAttribute MAM_TAB_ATTR mp"
    "hasAttribute MAM_PANEL_ID_ATTR mp \<or> hasAttribute MAM_TAB_ID_ATTR mp
       \<longrightarrow> hasAttribute MAM_BOUND_ATTR mp"
    "hasAttribute MAM_PANEL_ATTR mp
       \<longrightarrow> (\<exists>n \<in> set (nodes (doc st)). hasAttribute MAM_PANEL_ATTR (snd n))"
    "next_eid (injectMamTab e st) = Suc (next_eid st)"
proof -
  let ?T = "tabList e"
  define n where "n = Suc (panelIdCounter st)"
  define d2 where "d2 = update_props ?T (bind_attrs n) (doc st)"
  define mp where "mp = mam_tab_props (getActiveClassNames ?T (sampleTab e) d2) n
                          (props_of (sampleTab e) d2)"
  have iibT: "\<And>m. m \<in> set (nodes (doc st)) \<Longrightarrow>
      hasAttribute MAM_PANEL_ID_ATTR (snd m) \<or> hasAttribute MAM_TAB_ID_ATTR (snd m)
        \<Longrightarrow> hasAttribute MAM_BOUND_ATTR (snd m)"
    using iib by (auto simp: ids_imply_bound_def list_all_iff)
  have "\<not> hasAttribute MAM_PANEL_ID_ATTR (props_of ?T (doc st))"
    using iibT[OF props_of_member[OF present]] unbound by (auto simp: bound_at_def)
  note inj0 = injectMamTab_unbound[OF present unbound this]
  have inj1: "doc (injectMamTab e st) = append_child ?T (Element (next_eid st) mp []) d2"
    using inj0(1) by (simp add: n_def d2_def mp_def)
  have e2: "eids d2 = eids (doc st)"
    by (simp add: d2_def eids_update_props)
  have l2: "located d2 = map (touch_located ?T (bind_attrs n)) (located (doc st))"
    by (simp add: d2_def located_update_props)
  from wf present e2 have "distinct (eids d2)" "?T \<in> set (eids d2)"
    by (simp_all add: wf_engine_def)
  from located_append_child[OF this, of "next_eid st" mp]
  obtain xs ys pT ancsT where s: "located d2 = xs @ ys" "((?T, pT), ancsT) \<in> set (located d2)"
    "located (append_child ?T (Element (next_eid st) mp []) d2)
       = xs @ [((next_eid st, mp), (?T, pT) # ancsT)] @ ys"
    by blast
  have sample: "\<exists>m \<in> set (nodes (doc st)). props_of (sampleTab e) d2 = snd (touch ?T (bind_attrs n) m)"
    if h: "hasAttribute k (props_of (sampleTab e) d2)" for k
  proof -
    from h have "props_of (sampleTab e) d2 \<noteq> no_props"
      using no_props_no_attr[of k] by auto
    with props_of_cases[of "sampleTab e" d2]
    have "(sampleTab e, props_of (sampleTab e) d2) \<in> set (nodes d2)" by auto
    then obtain m where "m \<in> set (nodes (doc st))"
        "(sampleTab e, props_of (sampleTab e) d2) = touch ?T (bind_attrs n) m"
      by (auto simp: d2_def nodes_update_props)
    then show ?thesis by (metis snd_conv)
  qed
  have b: "hasAttribute MAM_PANEL_ID_ATTR mp \<or> hasAttribute MAM_TAB_ID_ATTR mp
       \<Longrightarrow> hasAttribute MAM_BOUND_ATTR mp"
  proof -
    assume "hasAttribute MAM_PANEL_ID_ATTR mp \<or> hasAttribute MAM_TAB_ID_ATTR mp"
    then have h: "hasAttribute MAM_PANEL_ID_ATTR (props_of (sampleTab e) d2)
        \<or> hasAttribute MAM_TAB_ID_ATTR (props_of (sampleTab e) d2)"
      by (simp add: mp_def mam_tab_props_facts)
    then obtain m where m: "m \<in> set (nodes (doc st))"
        "props_of (sampleTab e) d2 = snd (touch ?T (bind_attrs n) m)"
      using sample by blast
    have "hasAttribute MAM_BOUND_ATTR (snd (touch ?T (bind_attrs n) m))"
    proof (cases "fst m = ?T")
      case True
      then show ?thesis by (simp add: touch_def bind_attrs_bound)
    next
      case False
      with h m(2) iibT[OF m(1)] show ?thesis by (simp add: touch_def)
    qed
    then show ?thesis by (simp add: mp_def mam_tab_props_facts m(2))
  qed
  have c: "hasAttribute MAM_PANEL_ATTR mp
       \<Longrightarrow> \<exists>n \<in> set (nodes (doc st)). hasAttribute MAM_PANEL_ATTR (snd n)"
  proof -
    assume "hasAttribute MAM_PANEL_ATTR mp"
    then have h: "hasAttribute MAM_PANEL_ATTR (props_of (sampleTab e) d2)"
      by (simp add: mp_def mam_tab_props_facts)
    then obtain m where m: "m \<in> set (nodes (doc st))"
        "props_of (sampleTab e) d2 = snd (touch ?T (bind_attrs n) m)"
      using sample by blast
    with h have "hasAttribute MAM_PANEL_ATTR (snd m)"
      by (simp add: touch_keeps[OF plugin_attrs_only_bind])
    with m(1) show ?thesis by blast
  qed
  show ?thesis
  proof (rule that[of n xs ys pT ancsT mp])
    show "map (touch_located ?T (bind_attrs n)) (located (doc st)) = xs @ ys"
      using s(1) l2 by simp
    show "((?T, pT), ancsT) \<in> set (xs @ ys)"
      using s(1,2) by simp
    show "located (doc (injectMamTab e st)) = xs @ [((next_eid st, mp), (?T, pT) # ancsT)] @ ys"
      using inj1 s(3) by simp
    show "\<not> is_tablist mp" "\<not> is_picker_panel mp" "hasAttribute MAM_TAB_ATTR mp"
      by (simp_all add: mp_def mam_tab_props_facts)
    show "hasAttribute MAM_PANEL_ID_ATTR mp \<or> hasAttribute MAM_TAB_ID_ATTR mp
       \<longrightarrow> hasAttribute MAM_BOUND_ATTR mp"
      using b by blast
    show "hasAttribute MAM_PANEL_ATTR mp
       \<longrightarrow> (\<exists>n \<in> set (nodes (doc st)). hasAttribute MAM_PANEL_ATTR (snd n))"
      using c by blast
    show "next_eid (injectMamTab e st) = Suc (next_eid st)"
      by (rule inj0(2))
  qed
qed

lemma eids_located: "eids d = map (\<lambda>l. fst (fst l)) (located d)"
  by (simp add: eids_def nodes_def)

lemma unique_located:
  assumes "distinct (map (\<lambda>l. fst (fst l)) every)" and "a \<in> set every" and "b \<in> set every"
    and "fst (fst a) = fst (fst b)"
  shows "a = b"
  using assms by (meson distinct_map inj_on_eq_iff)

lemma touch_located_fst: "fst (fst (touch_located i f l)) = fst (fst l)"
  by (simp add: touch_located_def touch_def)

lemma inject_preserves:
  assumes wf: "wf_engine st" and iib: "ids_imply_bound (doc st)"
    and closed: "tl_closed_in (located (doc st)) (tabList e)"
  shows "wf_engine (injectMamTab e st)"
    and "ids_imply_bound (doc (injectMamTab e st))"
    and "resolved_in (located (doc (injectMamTab e st)))
           \<subseteq> insert (tabList e) (resolved_in (located (doc st)))"
    and "bound_at (tabList e) (doc (injectMamTab e st))"
    and "\<And>t. tl_closed_in (located (doc st)) t
           \<Longrightarrow> tl_closed_in (located (doc (injectMamTab e st))) t"
    and "\<And>t. t \<in> set (eids (doc st)) \<Longrightarrow> t \<noteq> tabList e
           \<Longrightarrow> bound_at t (doc (injectMamTab e st)) = bound_at t (doc st)"
    and "\<And>t. length (synthetic_tabs t (doc (injectMamTab e st))) =
           length (synthetic_tabs t (doc st))
             + (if t = tabList e \<and> \<not> bound_at (tabList e) (doc st) then 1 else 0)"
    and "synthetic_panels (doc st) = [] \<Longrightarrow> synthetic_panels (doc (injectMamTab e st)) = []"
proof -
  let ?T = "tabList e"
  let ?st' = "injectMamTab e st"
  let ?L = "located (doc st)"
  from closed obtain p0 ancs0 where p0: "((?T, p0), ancs0) \<in> set ?L"
    and c0: "is_tablist p0 \<or> (\<forall>a \<in> set ancs0. \<not> is_tablist (snd a))"
    unfolding tl_closed_in_def by blast
  from p0 have present: "?T \<in> set (eids (doc st))"
    by (force simp: eids_located)
  have all:
    "wf_engine ?st' \<and> ids_imply_bound (doc ?st')
     \<and> resolved_in (located (doc ?st')) \<subseteq> insert ?T (resolved_in ?L)
     \<and> bound_at ?T (doc ?st')
     \<and> (\<forall>t. tl_closed_in ?L t \<longrightarrow> tl_closed_in (located (doc ?st')) t)
     \<and> (\<forall>t. t \<in> set (eids (doc st)) \<and> t \<noteq> ?T \<longrightarrow> bound_at t (doc ?st') = bound_at t (doc st))
     \<and> (\<forall>t. length (synthetic_tabs t (doc ?st')) = length (synthetic_tabs t (doc st))
             + (if t = ?T \<and> \<not> bound_at ?T (doc st) then 1 else 0))
     \<and> (synthetic_panels (doc st) = [] \<longrightarrow> synthetic_panels (doc ?st') = [])"
  proof (cases "bound_at ?T (doc st)")
    case True
    then have eq: "?st' = st" by (rule injectMamTab_bound)
    show ?thesis
      unfolding eq using wf iib True by (simp add: subset_insertI)
  next
    case False
    obtain xs ys n mp pT ancsT where
      L2: "map (touch_located ?T (bind_attrs n)) ?L = xs @ ys"
      and pT: "((?T, pT), ancsT) \<in> set (xs @ ys)"
      and L': "located (doc ?st') = xs @ [((next_eid st, mp), (?T, pT) # ancsT)] @ ys"
      and mp: "\<not> is_tablist mp" "\<not> is_picker_panel mp" "hasAttribute MAM_TAB_ATTR mp"
      and mpb: "hasAttribute MAM_PANEL_ID_ATTR mp \<or> hasAttribute MAM_TAB_ID_ATTR mp
                  \<longrightarrow> hasAttribute MAM_BOUND_ATTR mp"
      and mpp: "hasAttribute MAM_PANEL_ATTR mp
                  \<longrightarrow> (\<exists>n \<in> set (nodes (doc st)). hasAttribute MAM_PANEL_ATTR (snd n))"
      and nx: "next_eid ?st' = Suc (next_eid st)"
      by (rule inject_structure[OF wf iib present False]) (rule that; assumption)
    let ?f = "bind_attrs n"
    let ?G = "touch_located ?T ?f"
    let ?new = "((next_eid st, mp), (?T, pT) # ancsT)"
    note pa = plugin_attrs_only_bind[of n]
    have ids2: "map (\<lambda>l. fst (fst l)) (xs @ ys) = eids (doc st)"
      unfolding L2[symmetric] by (simp add: eids_located touch_located_fst comp_def)
    have fresh: "next_eid st \<notin> set (eids (doc st))"
      using wf by (auto simp: wf_engine_def list_all_iff)
    have ne: "?T \<noteq> next_eid st"
      using present fresh by auto
    \<comment> \<open>well-formedness\<close>
    have eids': "eids (doc ?st')
        = map (\<lambda>l. fst (fst l)) xs @ [next_eid st] @ map (\<lambda>l. fst (fst l)) ys"
      by (simp add: eids_located L')
    have "distinct (map (\<lambda>l. fst (fst l)) xs @ map (\<lambda>l. fst (fst l)) ys)"
      using wf ids2 by (simp add: wf_engine_def)
    moreover have "next_eid st \<notin> set (map (\<lambda>l. fst (fst l)) xs @ map (\<lambda>l. fst (fst l)) ys)"
      using fresh ids2 by (metis map_append)
    ultimately have "distinct (eids (doc ?st'))"
      unfolding eids' by auto
    moreover have "list_all (\<lambda>i. i < Suc (next_eid st)) (eids (doc ?st'))"
    proof -
      have "\<forall>i \<in> set (map (\<lambda>l. fst (fst l)) (xs @ ys)). i < next_eid st"
        using wf unfolding ids2 by (simp add: wf_engine_def list_all_iff)
      then have "\<And>i. i \<in> set (map (\<lambda>l. fst (fst l)) xs) \<Longrightarrow> i < Suc (next_eid st)"
        "\<And>i. i \<in> set (map (\<lambda>l. fst (fst l)) ys) \<Longrightarrow> i < Suc (next_eid st)"
        by (simp_all add: less_Suc_eq)
      then show ?thesis
        unfolding eids' list_all_iff by auto
    qed
    ultimately have g1: "wf_engine ?st'"
      by (simp add: wf_engine_def nx)
    \<comment> \<open>the nodes\<close>
    have nodes2: "map fst (xs @ ys) = map (touch ?T ?f) (nodes (doc st))"
      unfolding L2[symmetric] by (simp add: nodes_def touch_located_def comp_def)
    have nodes': "nodes (doc ?st') = map fst xs @ [(next_eid st, mp)] @ map fst ys"
      by (simp add: nodes_def L')
    have in_nodes': "m \<in> set (nodes (doc ?st')) \<Longrightarrow>
        m = (next_eid st, mp) \<or> (\<exists>m0 \<in> set (nodes (doc st)). m = touch ?T ?f m0)" for m
    proof -
      assume "m \<in> set (nodes (doc ?st'))"
      then have "m = (next_eid st, mp) \<or> m \<in> set (map fst (xs @ ys))"
        unfolding nodes' by auto
      then show ?thesis unfolding nodes2 by auto
    qed
    have g2: "ids_imply_bound (doc ?st')"
      unfolding ids_imply_bound_def list_all_iff
    proof (intro ballI impI)
      fix m assume m: "m \<in> set (nodes (doc ?st'))"
        and h: "hasAttribute MAM_PANEL_ID_ATTR (snd m) \<or> hasAttribute MAM_TAB_ID_ATTR (snd m)"
      from in_nodes'[OF m] show "hasAttribute MAM_BOUND_ATTR (snd m)"
      proof
        assume "m = (next_eid st, mp)"
        with h mpb show ?thesis by simp
      next
        assume "\<exists>m0 \<in> set (nodes (doc st)). m = touch ?T ?f m0"
        then obtain m0 where m0: "m0 \<in> set (nodes (doc st))" "m = touch ?T ?f m0" by blast
        show ?thesis
        proof (cases "fst m0 = ?T")
          case True
          then show ?thesis by (simp add: m0(2) touch_def bind_attrs_bound)
        next
          case False
          with h m0 iib show ?thesis
            by (auto simp: touch_def ids_imply_bound_def list_all_iff)
        qed
      qed
    qed
    have g8: "synthetic_panels (doc st) = [] \<longrightarrow> synthetic_panels (doc ?st') = []"
    proof
      assume e: "synthetic_panels (doc st) = []"
      then have none: "\<And>m0. m0 \<in> set (nodes (doc st)) \<Longrightarrow> \<not> hasAttribute MAM_PANEL_ATTR (snd m0)"
        by (auto simp: synthetic_panels_def filter_empty_conv)
      have "\<not> hasAttribute MAM_PANEL_ATTR (snd m)" if "m \<in> set (nodes (doc ?st'))" for m
        using in_nodes'[OF that] none mpp
        by (auto simp: touch_keeps[OF pa])
      then show "synthetic_panels (doc ?st') = []"
        by (auto simp: synthetic_panels_def filter_empty_conv)
    qed
    \<comment> \<open>the tab list of the new tab\<close>
    have "?G ((?T, p0), ancs0) \<in> set (xs @ ys)"
      unfolding L2[symmetric] using p0 by simp
    moreover have "distinct (map (\<lambda>l. fst (fst l)) (xs @ ys))"
      using wf ids2 by (simp add: wf_engine_def)
    ultimately have same: "?G ((?T, p0), ancs0) = ((?T, pT), ancsT)"
      using pT by (intro unique_located[of "xs @ ys"]) (simp_all add: touch_located_fst)
    have cT: "is_tablist pT \<or> (\<forall>a \<in> set ancsT. \<not> is_tablist (snd a))"
    proof -
      have "pT = snd (touch ?T ?f (?T, p0))" "ancsT = map (touch ?T ?f) ancs0"
        using same by (simp_all add: touch_located_def)
      with c0 show ?thesis
        by (auto simp: touch_keeps[OF pa])
    qed
    have g3: "resolved_in (located (doc ?st')) \<subseteq> insert ?T (resolved_in ?L)"
      using resolved_in_insert[OF mp(2) mp(1) cT, of xs "next_eid st" ?T ys]
      unfolding L' L2[symmetric] resolved_in_touch[OF pa] .
    have g5: "\<forall>t. tl_closed_in ?L t \<longrightarrow> tl_closed_in (located (doc ?st')) t"
    proof (intro allI impI)
      fix t assume "tl_closed_in ?L t"
      from tl_closed_in_touch[OF pa this, of ?T]
      have "tl_closed_in (xs @ ys) t" unfolding L2 .
      then show "tl_closed_in (located (doc ?st')) t"
        unfolding L' by (rule tl_closed_in_mono[rotated]) auto
    qed
    \<comment> \<open>the properties behind the old references\<close>
    have props': "props_of t (doc ?st') = (if t = ?T then ?f (props_of t (doc st)) else props_of t (doc st))"
      if t: "t \<in> set (eids (doc st))" for t
    proof -
      have "t \<noteq> next_eid st" using t fresh by auto
      then have "locate t (doc ?st') = find (\<lambda>l. fst (fst l) = t) (xs @ ys)"
        unfolding locate_def L' by (intro find_insert_skip) simp
      also have "\<dots> = locate t (update_props ?T ?f (doc st))"
        unfolding L2[symmetric] by (simp add: locate_def located_update_props)
      finally have "props_of t (doc ?st') = props_of t (update_props ?T ?f (doc st))"
        by (simp add: props_of_def)
      then show ?thesis
        using t locate_in_eids[of t "doc st"]
        by (auto simp: props_of_update_props split: option.splits)
    qed
    have g4: "bound_at ?T (doc ?st')"
      by (simp add: bound_at_def props'[OF present] bind_attrs_bound)
    have g6: "\<forall>t. t \<in> set (eids (doc st)) \<and> t \<noteq> ?T
                \<longrightarrow> bound_at t (doc ?st') = bound_at t (doc st)"
      by (simp add: bound_at_def props')
    \<comment> \<open>the synthetic tabs\<close>
    have g7: "\<forall>t. length (synthetic_tabs t (doc ?st')) = length (synthetic_tabs t (doc st))
             + (if t = ?T \<and> \<not> bound_at ?T (doc st) then 1 else 0)"
    proof
      fix t
      let ?R = "\<lambda>l :: node \<times> node list. hasAttribute MAM_TAB_ATTR (snd (fst l))
                 \<and> (case snd l of [] \<Rightarrow> False | parent # ancs \<Rightarrow> fst parent = t)"
      have RG: "?R (?G l) = ?R l" for l
        by (cases "snd l") (simp_all add: touch_located_def touch_keeps[OF pa])
      have "filter ?R (xs @ ys) = map ?G (filter ?R ?L)"
        unfolding L2[symmetric] by (simp add: filter_map comp_def RG)
      then have "length (filter ?R (xs @ ys)) = length (synthetic_tabs t (doc st))"
        by (simp add: synthetic_tabs_def)
      moreover have "?R ?new = (t = ?T)"
        using mp(3) by auto
      ultimately show "length (synthetic_tabs t (doc ?st')) = length (synthetic_tabs t (doc st))
             + (if t = ?T \<and> \<not> bound_at ?T (doc st) then 1 else 0)"
        using False unfolding synthetic_tabs_def L' by auto
    qed
    from g1 g2 g3 g4 g5 g6 g7 g8 show ?thesis by blast
  qed
  from all show "wf_engine ?st'" by blast
  from all show "ids_imply_bound (doc ?st')" by blast
  from all show "resolved_in (located (doc ?st')) \<subseteq> insert ?T (resolved_in ?L)" by blast
  from all show "bound_at ?T (doc ?st')" by blast
  from all show "\<And>t. tl_closed_in ?L t \<Longrightarrow> tl_closed_in (located (doc ?st')) t" by blast
  from all show "\<And>t. t \<in> set (eids (doc st)) \<Longrightarrow> t \<noteq> ?T
           \<Longrightarrow> bound_at t (doc ?st') = bound_at t (doc st)" by blast
  from all show "\<And>t. length (synthetic_tabs t (doc ?st')) =
           length (synthetic_tabs t (doc st))
             + (if t = ?T \<and> \<not> bound_at ?T (doc st) then 1 else 0)" by blast
  from all show "synthetic_panels (doc st) = [] \<Longrightarrow> synthetic_panels (doc ?st') = []" by blast
qed

lemma collect_entries_sub:
  "e \<in> set (collect_entries every ps seen) \<Longrightarrow>
     \<exists>panel \<in> set ps. \<exists>tab. controlling_tab every (element_id (snd panel)) = Some tab
        \<and> tab_list_of tab = Some (tabList e) \<and> tabList e \<notin> set seen"
proof (induction ps arbitrary: seen)
  case Nil
  then show ?case by simp
next
  case (Cons panel ps)
  show ?case
  proof (cases "controlling_tab every (element_id (snd panel))")
    case None
    with Cons.prems have "e \<in> set (collect_entries every ps seen)" by simp
    from Cons.IH[OF this] show ?thesis by auto
  next
    case (Some tab)
    show ?thesis
    proof (cases "tab_list_of tab")
      case None
      with Some Cons.prems have "e \<in> set (collect_entries every ps seen)" by simp
      from Cons.IH[OF this] show ?thesis by auto
    next
      case tl: (Some t)
      show ?thesis
      proof (cases "t \<in> set seen")
        case True
        with Some tl Cons.prems have "e \<in> set (collect_entries every ps seen)" by simp
        from Cons.IH[OF this] show ?thesis by auto
      next
        case False
        with Some tl Cons.prems
        have "e = \<lparr>tabList = t, sampleTab = fst (fst tab), samplePanel = fst panel\<rparr>
              \<or> e \<in> set (collect_entries every ps (t # seen))"
          by simp
        then show ?thesis
        proof
          assume "e = \<lparr>tabList = t, sampleTab = fst (fst tab), samplePanel = fst panel\<rparr>"
          with Some tl False show ?thesis
            by (intro bexI[of _ panel] exI[of _ tab]) simp_all
        next
          assume "e \<in> set (collect_entries every ps (t # seen))"
          from Cons.IH[OF this] show ?thesis by auto
        qed
      qed
    qed
  qed
qed

lemma collect_entries_sup:
  "panel \<in> set ps \<Longrightarrow> controlling_tab every (element_id (snd panel)) = Some tab
     \<Longrightarrow> tab_list_of tab = Some t
     \<Longrightarrow> t \<in> set seen \<or> t \<in> tabList ` set (collect_entries every ps seen)"
proof (induction ps arbitrary: seen)
  case Nil
  then show ?case by simp
next
  case (Cons q ps)
  show ?case
  proof (cases "panel = q")
    case True
    with Cons.prems show ?thesis by (auto simp: image_iff)
  next
    case False
    with Cons.prems have m: "panel \<in> set ps" by simp
    note ih = Cons.IH[OF m Cons.prems(2,3)]
    show ?thesis
    proof (cases "controlling_tab every (element_id (snd q))")
      case None
      with ih[of seen] show ?thesis by simp
    next
      case (Some tab')
      show ?thesis
      proof (cases "tab_list_of tab'")
        case None
        with Some ih[of seen] show ?thesis by simp
      next
        case tl: (Some t')
        show ?thesis
        proof (cases "t' \<in> set seen")
          case True
          with Some tl ih[of seen] show ?thesis by simp
        next
          case False
          with Some tl ih[of "t' # seen"] show ?thesis by (auto simp: image_iff)
        qed
      qed
    qed
  qed
qed

lemma collect_entries_distinct: "distinct (map tabList (collect_entries every ps seen))"
proof (induction ps arbitrary: seen)
  case Nil
  then show ?case by simp
next
  case (Cons panel ps)
  have "\<And>t e. e \<in> set (collect_entries every ps (t # seen)) \<Longrightarrow> tabList e \<noteq> t"
    using collect_entries_sub[of _ every ps] by fastforce
  with Cons show ?case
    by (auto split: option.splits)
qed

lemma entries_resolved: "tabList ` set (findPickerEntries d) = resolved_in (located d)"
proof (intro set_eqI iffI)
  fix t assume "t \<in> tabList ` set (findPickerEntries d)"
  then obtain e where e: "e \<in> set (findPickerEntries d)" "t = tabList e" by blast
  from collect_entries_sub[OF e(1)[unfolded findPickerEntries_def]]
  obtain panel tab where p: "panel \<in> set (filter (\<lambda>n. is_picker_panel (snd n)) (nodes d))"
    "controlling_tab (located d) (element_id (snd panel)) = Some tab"
    "tab_list_of tab = Some (tabList e)"
    by blast
  from p(1) obtain l where l: "l \<in> set (located d)" "fst l = panel" "is_picker_panel (snd (fst l))"
    by (auto simp: nodes_def)
  from resolved_inI[OF l(1) l(3)] p(2,3) l(2) e(2) show "t \<in> resolved_in (located d)"
    by simp
next
  fix t assume "t \<in> resolved_in (located d)"
  then obtain l tab where l: "l \<in> set (located d)" "is_picker_panel (snd (fst l))"
    "controlling_tab (located d) (element_id (snd (fst l))) = Some tab" "tab_list_of tab = Some t"
    by (rule resolved_inE)
  from l(1,2) have "fst l \<in> set (filter (\<lambda>n. is_picker_panel (snd n)) (nodes d))"
    by (simp add: nodes_def)
  from collect_entries_sup[OF this l(3,4), of "[]"]
  show "t \<in> tabList ` set (findPickerEntries d)"
    by (simp add: findPickerEntries_def)
qed

lemma located_from_anc:
  "(x, as) \<in> set (located_from A e) \<Longrightarrow>
     as = A \<or> (\<exists>a as'. as = a # as' \<and> (a, as') \<in> set (located_from A e))"
proof (induction e arbitrary: A x as)
  case (Element i p ks)
  show ?case
  proof (cases "(x, as) = ((i, p), A)")
    case True
    then show ?thesis by simp
  next
    case False
    with Element.prems obtain k where k: "k \<in> set ks" "(x, as) \<in> set (located_from ((i, p) # A) k)"
      by auto
    from Element.IH[OF k] show ?thesis
    proof
      assume "as = (i, p) # A"
      then show ?thesis by simp
    next
      assume "\<exists>a as'. as = a # as' \<and> (a, as') \<in> set (located_from ((i, p) # A) k)"
      with k(1) show ?thesis by auto
    qed
  qed
qed

lemma located_parent: "(x, a # as) \<in> set (located d) \<Longrightarrow> (a, as) \<in> set (located d)"
  using located_from_anc[of x "a # as" "[]" d] by (simp add: located_def)

lemma located_ancestor:
  "(x, as) \<in> set (located d) \<Longrightarrow> n \<in> set as \<Longrightarrow> \<exists>as'. (n, as') \<in> set (located d)"
proof (induction as arbitrary: x)
  case Nil
  then show ?case by simp
next
  case (Cons a as)
  from located_parent[OF Cons.prems(1)] have p: "(a, as) \<in> set (located d)" .
  show ?case
  proof (cases "n = a")
    case True
    with p show ?thesis by blast
  next
    case False
    with Cons.prems(2) have "n \<in> set as" by simp
    from Cons.IH[OF p this] show ?thesis .
  qed
qed

lemma find_SomeD: "find P xs = Some n \<Longrightarrow> n \<in> set xs \<and> P n"
  by (induction xs) (auto split: if_splits)

lemma find_NoneD: "find P xs = None \<Longrightarrow> n \<in> set xs \<Longrightarrow> \<not> P n"
  by (induction xs) (auto split: if_splits)

lemma controlling_tab_mem: "controlling_tab every pid = Some tab \<Longrightarrow> tab \<in> set every"
  unfolding controlling_tab_def by (auto dest: find_SomeD split: option.splits)

lemma resolved_closed:
  assumes "t \<in> resolved_in (located d)"
  shows "tl_closed_in (located d) t"
proof -
  from assms obtain l tab where
    l: "l \<in> set (located d)" "is_picker_panel (snd (fst l))"
    and c: "controlling_tab (located d) (element_id (snd (fst l))) = Some tab"
    and t: "tab_list_of tab = Some t"
    by (rule resolved_inE)
  obtain x as where tab: "tab = (x, as)" by (cases tab)
  from controlling_tab_mem[OF c] have m: "(x, as) \<in> set (located d)" by (simp add: tab)
  show ?thesis
  proof (cases "find (\<lambda>n. is_tablist (snd n)) (x # as)")
    case (Some n)
    with t have tn: "t = fst n" by (simp add: tab_list_of_def tab)
    from find_SomeD[OF Some] have n: "n \<in> set (x # as)" "is_tablist (snd n)"
      by blast+
    have "\<exists>as'. (n, as') \<in> set (located d)"
    proof (cases "n = x")
      case True
      with m show ?thesis by blast
    next
      case False
      with n(1) have "n \<in> set as" by simp
      from located_ancestor[OF m this] show ?thesis .
    qed
    then obtain as' where "((t, snd n), as') \<in> set (located d)"
      by (auto simp: tn)
    with n(2) show ?thesis
      unfolding tl_closed_in_def by blast
  next
    case None
    with t obtain parent rest where as: "as = parent # rest" and tp: "t = fst parent"
      by (cases as) (auto simp: tab_list_of_def tab)
    from located_parent[OF m[unfolded as]] have "((t, snd parent), rest) \<in> set (located d)"
      by (simp add: tp)
    moreover from find_NoneD[OF None] have "\<forall>a \<in> set rest. \<not> is_tablist (snd a)"
      by (simp add: as)
    ultimately show ?thesis
      unfolding tl_closed_in_def by blast
  qed
qed

lemma tl_closed_present: "tl_closed_in (located d) t \<Longrightarrow> t \<in> set (eids d)"
  unfolding tl_closed_in_def by (force simp: eids_located)

lemma bound_at_present: "bound_at t d \<Longrightarrow> t \<in> set (eids d)"
  using props_of_cases[of t d] no_props_no_attr[of MAM_BOUND_ATTR]
  by (force simp: bound_at_def eids_def)

lemma fold_inject:
  assumes "wf_engine st" and "ids_imply_bound (doc st)"
    and "resolved_in (located (doc st)) \<subseteq> Ts"
    and "\<forall>t \<in> Ts. tl_closed_in (located (doc st)) t"
    and "tabList ` set es \<subseteq> Ts"
  shows "wf_engine (fold injectMamTab es st)
       \<and> ids_imply_bound (doc (fold injectMamTab es st))
       \<and> resolved_in (located (doc (fold injectMamTab es st))) \<subseteq> Ts
       \<and> (\<forall>t \<in> Ts. tl_closed_in (located (doc (fold injectMamTab es st))) t)
       \<and> (\<forall>e \<in> set es. bound_at (tabList e) (doc (fold injectMamTab es st)))
       \<and> (\<forall>t. bound_at t (doc st) \<longrightarrow> bound_at t (doc (fold injectMamTab es st)))
       \<and> (synthetic_panels (doc st) = []
            \<longrightarrow> synthetic_panels (doc (fold injectMamTab es st)) = [])"
  using assms
proof (induction es arbitrary: st)
  case Nil
  then show ?case by simp
next
  case (Cons e es)
  let ?st1 = "injectMamTab e st"
  from Cons.prems(4,5) have cl: "tl_closed_in (located (doc st)) (tabList e)" by simp
  note P = inject_preserves[OF Cons.prems(1,2) cl]
  have r1: "resolved_in (located (doc ?st1)) \<subseteq> Ts"
    using P(3) Cons.prems(3,5) by auto
  have c1: "\<forall>t \<in> Ts. tl_closed_in (located (doc ?st1)) t"
    using P(5) Cons.prems(4) by blast
  have mono: "bound_at t (doc st) \<Longrightarrow> bound_at t (doc ?st1)" for t
    using P(4) P(6)[of t] bound_at_present[of t "doc st"] by (cases "t = tabList e") auto
  from Cons.prems(5) have "tabList ` set es \<subseteq> Ts" by simp
  note IH = Cons.IH[OF P(1,2) r1 c1 this]
  from IH mono P(4) P(8) show ?case by auto
qed

lemma scan_idempotent:
  assumes "wf_engine st" and "ids_imply_bound (doc st)"
  shows "scanForPicker (scanForPicker st) = scanForPicker st"
proof -
  let ?E = "findPickerEntries (doc st)"
  let ?Ts = "resolved_in (located (doc st))"
  let ?st' = "fold injectMamTab ?E st"
  have "\<forall>t \<in> ?Ts. tl_closed_in (located (doc st)) t"
    by (simp add: resolved_closed)
  from fold_inject[OF assms subset_refl this, of ?E]
  have r: "resolved_in (located (doc ?st')) \<subseteq> ?Ts"
    and b: "\<forall>e \<in> set ?E. bound_at (tabList e) (doc ?st')"
    by (simp_all add: entries_resolved)
  have "\<And>e. e \<in> set (findPickerEntries (doc ?st')) \<Longrightarrow> bound_at (tabList e) (doc ?st')"
  proof -
    fix e assume "e \<in> set (findPickerEntries (doc ?st'))"
    then have "tabList e \<in> resolved_in (located (doc ?st'))"
      using entries_resolved[of "doc ?st'"] by blast
    with r have "tabList e \<in> tabList ` set ?E"
      by (auto simp: entries_resolved)
    with b show "bound_at (tabList e) (doc ?st')" by auto
  qed
  then have "fold injectMamTab es ?st' = ?st'"
    if "set es \<subseteq> set (findPickerEntries (doc ?st'))" for es
    using that by (induction es) (simp_all add: injectMamTab_bound)
  from this[OF subset_refl] show ?thesis
    by (simp add: scanForPicker_def)
qed

lemma fold_inject_count:
  assumes "wf_engine st" and "ids_imply_bound (doc st)"
    and "\<forall>e \<in> set es. tl_closed_in (located (doc st)) (tabList e)"
    and "distinct (map tabList es)"
    and "\<forall>e \<in> set es. \<not> bound_at (tabList e) (doc st)"
  shows "length (synthetic_tabs t (doc (fold injectMamTab es st))) =
           length (synthetic_tabs t (doc st)) + (if t \<in> tabList ` set es then 1 else 0)"
  using assms
proof (induction es arbitrary: st)
  case Nil
  then show ?case by simp
next
  case (Cons e es)
  let ?st1 = "injectMamTab e st"
  from Cons.prems(3) have cl: "tl_closed_in (located (doc st)) (tabList e)" by simp
  note P = inject_preserves[OF Cons.prems(1,2) cl]
  have c1: "\<forall>e' \<in> set es. tl_closed_in (located (doc ?st1)) (tabList e')"
    using P(5) Cons.prems(3) by simp
  from Cons.prems(4) have d1: "distinct (map tabList es)" and ne: "tabList e \<notin> tabList ` set es"
    by simp_all
  have u1: "\<forall>e' \<in> set es. \<not> bound_at (tabList e') (doc ?st1)"
  proof
    fix e' assume m: "e' \<in> set es"
    with ne have n: "tabList e' \<noteq> tabList e" by (auto simp: image_iff)
    from m Cons.prems(3) have "tabList e' \<in> set (eids (doc st))"
      by (simp add: tl_closed_present)
    from P(6)[OF this n] m Cons.prems(5) show "\<not> bound_at (tabList e') (doc ?st1)"
      by simp
  qed
  from Cons.prems(5) have ub: "\<not> bound_at (tabList e) (doc st)" by simp
  have "length (synthetic_tabs t (doc (fold injectMamTab es ?st1))) =
          length (synthetic_tabs t (doc ?st1)) + (if t \<in> tabList ` set es then 1 else 0)"
    by (rule Cons.IH[OF P(1,2) c1 d1 u1])
  also have "length (synthetic_tabs t (doc ?st1)) =
          length (synthetic_tabs t (doc st)) + (if t = tabList e then 1 else 0)"
    using P(7)[of t] ub by simp
  finally show ?case using ne by auto
qed

lemma plugin_free_ids_imply_bound: "plugin_free d \<Longrightarrow> ids_imply_bound d"
  by (auto simp: plugin_free_def ids_imply_bound_def list_all_iff)

lemma plugin_free_unbound: "plugin_free d \<Longrightarrow> \<not> bound_at t d"
  using props_of_cases[of t d] no_props_no_attr[of MAM_BOUND_ATTR]
  by (auto simp: plugin_free_def bound_at_def list_all_iff)

lemma plugin_free_no_tabs: "plugin_free d \<Longrightarrow> synthetic_tabs t d = []"
  by (auto simp: plugin_free_def synthetic_tabs_def list_all_iff nodes_def filter_empty_conv)

lemma plugin_free_no_panels: "plugin_free d \<Longrightarrow> synthetic_panels d = []"
  by (auto simp: plugin_free_def synthetic_panels_def list_all_iff filter_empty_conv)

lemma inject_safe:
  assumes wf: "wf_engine st" and iib: "ids_imply_bound (doc st)"
    and closed: "tl_closed_in (located (doc st)) (tabList e)"
    and safe: "selector_safe_ids (doc st)"
  shows "selector_safe_ids (doc (injectMamTab e st))"
proof (cases "bound_at (tabList e) (doc st)")
  case True
  with safe show ?thesis by (simp add: injectMamTab_bound)
next
  case False
  from closed have present: "tabList e \<in> set (eids (doc st))" by (rule tl_closed_present)
  obtain xs ys n mp pT ancsT where
    s: "map (touch_located (tabList e) (bind_attrs n)) (located (doc st)) = xs @ ys"
       "located (doc (injectMamTab e st)) = xs @ [((next_eid st, mp), (tabList e, pT) # ancsT)] @ ys"
       "\<not> is_picker_panel mp"
    by (rule inject_structure[OF wf iib present False]) (rule that; assumption)
  have old: "is_picker_panel (snd (fst l)) \<longrightarrow> css_string_safe (element_id (snd (fst l)))"
    if "l \<in> set (xs @ ys)" for l
  proof -
    from that s(1) obtain l0 where l0: "l0 \<in> set (located (doc st))"
      "l = touch_located (tabList e) (bind_attrs n) l0"
      by (metis (no_types, lifting) imageE set_map)
    from l0(1) safe have "is_picker_panel (snd (fst l0)) \<longrightarrow> css_string_safe (element_id (snd (fst l0)))"
      by (auto simp: selector_safe_ids_def list_all_iff nodes_def)
    with l0(2) show ?thesis
      by (simp add: touch_located_def touch_keeps[OF plugin_attrs_only_bind])
  qed
  have "is_picker_panel (snd m) \<longrightarrow> css_string_safe (element_id (snd m))"
    if "m \<in> set (nodes (doc (injectMamTab e st)))" for m
  proof -
    from that have "m \<in> fst ` set (xs @ [((next_eid st, mp), (tabList e, pT) # ancsT)] @ ys)"
      unfolding nodes_def s(2) by (simp only: set_map)
    then obtain l where l: "l \<in> set (xs @ [((next_eid st, mp), (tabList e, pT) # ancsT)] @ ys)"
      "m = fst l"
      by (rule imageE)
    show ?thesis
    proof (cases "l \<in> set (xs @ ys)")
      case True
      from old[OF this] l(2) show ?thesis by simp
    next
      case False
      with l have "m = (next_eid st, mp)" by auto
      with s(3) show ?thesis by simp
    qed
  qed
  then show ?thesis
    unfolding selector_safe_ids_def list_all_iff by blast
qed

lemma fold_inject_safe:
  assumes "wf_engine st" and "ids_imply_bound (doc st)"
    and "\<forall>e \<in> set es. tl_closed_in (located (doc st)) (tabList e)"
    and "selector_safe_ids (doc st)"
  shows "selector_safe_ids (doc (fold injectMamTab es st))"
  using assms
proof (induction es arbitrary: st)
  case Nil
  then show ?case by simp
next
  case (Cons e es)
  from Cons.prems(3) have cl: "tl_closed_in (located (doc st)) (tabList e)" by simp
  note P = inject_preserves[OF Cons.prems(1,2) cl]
  have c1: "\<forall>e' \<in> set es. tl_closed_in (located (doc (injectMamTab e st))) (tabList e')"
    using P(5) Cons.prems(3) by simp
  from Cons.IH[OF P(1,2) c1 inject_safe[OF Cons.prems(1,2) cl Cons.prems(4)]]
  show ?case by simp
qed

lemma scan_counts:
  assumes "wf_engine st" and "plugin_free (doc st)"
  shows "list_all (\<lambda>e. length (synthetic_tabs (tabList e) (doc (scanForPicker st))) = 1)
                  (findPickerEntries (doc st))"
    and "synthetic_panels (doc (scanForPicker st)) = []"
proof -
  let ?E = "findPickerEntries (doc st)"
  let ?Ts = "resolved_in (located (doc st))"
  from assms(2) have iib: "ids_imply_bound (doc st)" by (rule plugin_free_ids_imply_bound)
  have closed: "\<forall>t \<in> ?Ts. tl_closed_in (located (doc st)) t"
    by (simp add: resolved_closed)
  have E: "tabList ` set ?E = ?Ts" by (rule entries_resolved)
  from closed E have cE: "\<forall>e \<in> set ?E. tl_closed_in (located (doc st)) (tabList e)"
    by blast
  have dE: "distinct (map tabList ?E)"
    by (simp add: findPickerEntries_def collect_entries_distinct)
  from assms(2) have uE: "\<forall>e \<in> set ?E. \<not> bound_at (tabList e) (doc st)"
    by (simp add: plugin_free_unbound)
  have cnt: "length (synthetic_tabs t (doc (scanForPicker st))) =
               (if t \<in> tabList ` set ?E then 1 else 0)" for t
    using fold_inject_count[OF assms(1) iib cE dE uE, of t] assms(2)
    by (simp add: scanForPicker_def plugin_free_no_tabs)
  from fold_inject[OF assms(1) iib subset_refl closed, of ?E] assms(2)
  show "synthetic_panels (doc (scanForPicker st)) = []"
    by (simp add: scanForPicker_def plugin_free_no_panels entries_resolved)
  from cnt show "list_all (\<lambda>e. length (synthetic_tabs (tabList e) (doc (scanForPicker st))) = 1) ?E"
    by (simp add: list_all_iff)
qed

text \<open>
  C8, as it holds. Take a state whose elements are distinct objects, in which the panel-id and
  tab-id attributes of the plugin occur only on elements that carry its bound attribute (as in
  every document the plugin has not touched), and whose candidate panels have ids free of
  double quotes, backslashes, line breaks and null characters. Then running
  \<^verbatim>\<open>scanForPicker\<close> twice in a row leaves the state the first scan produced: the second scan
  changes nothing, because every tab list it resolves is one the first scan resolved and bound,
  and a bound tab list is skipped; the candidate panels the second scan meets have such ids
  too. If moreover the plugin has not touched the document (no element carries one of its
  attributes), each matched tab list then has exactly one synthetic tab among its children,
  and the document has no synthetic panel: the panel is created by \<^verbatim>\<open>ensureMamPanel\<close>, which
  only \<^verbatim>\<open>setMamActive\<close> calls, when the tab is first activated.
\<close>

theorem scan_twice_one_tab_no_panel:
  assumes "wf_engine st" and "ids_imply_bound (doc st)" and "selector_safe_ids (doc st)"
  shows "selector_safe_ids (doc (scanForPicker st))
       \<and> scanForPicker (scanForPicker st) = scanForPicker st
       \<and> (plugin_free (doc st) \<longrightarrow>
            list_all (\<lambda>e. length (synthetic_tabs (tabList e)
                                   (doc (scanForPicker (scanForPicker st)))) = 1)
                     (findPickerEntries (doc st))
            \<and> synthetic_panels (doc (scanForPicker (scanForPicker st))) = [])"
proof -
  have idem: "scanForPicker (scanForPicker st) = scanForPicker st"
    by (rule scan_idempotent[OF assms(1,2)])
  have "\<forall>e \<in> set (findPickerEntries (doc st)). tl_closed_in (located (doc st)) (tabList e)"
    using entries_resolved[of "doc st"] resolved_closed[of _ "doc st"] by blast
  from fold_inject_safe[OF assms(1,2) this assms(3)]
  have safe: "selector_safe_ids (doc (scanForPicker st))"
    by (simp add: scanForPicker_def)
  from safe idem scan_counts[OF assms(1)] show ?thesis by simp
qed

text \<open>
  The example picker (a tab list with a GIF tab and an emoji tab, and their two panels) is such a
  state, untouched and with one matched tab list. The example picker after a start and a click
  on the synthetic tab is such a state too, with a synthetic panel in it, and scanning it twice
  is scanning it once.
\<close>

theorem scan_twice_one_tab_no_panel_witness:
  "wf_engine example_engine \<and> ids_imply_bound (doc example_engine)
   \<and> selector_safe_ids (doc example_engine) \<and> plugin_free (doc example_engine)
   \<and> map tabList (findPickerEntries (doc example_engine)) = [1]
   \<and> selector_safe_ids (doc (scanForPicker example_engine))
   \<and> scanForPicker (scanForPicker example_engine) = scanForPicker example_engine
   \<and> list_all (\<lambda>e. length (synthetic_tabs (tabList e)
                               (doc (scanForPicker (scanForPicker example_engine)))) = 1)
              (findPickerEntries (doc example_engine))
   \<and> synthetic_panels (doc (scanForPicker (scanForPicker example_engine))) = []
   \<and> wf_engine activated_example \<and> ids_imply_bound (doc activated_example)
   \<and> selector_safe_ids (doc activated_example) \<and> \<not> plugin_free (doc activated_example)
   \<and> scanForPicker (scanForPicker activated_example) = scanForPicker activated_example"
proof -
  have wf: "wf_engine example_engine" by code_simp
  have iib: "ids_imply_bound (doc example_engine)" by code_simp
  have sf: "selector_safe_ids (doc example_engine)" by code_simp
  have pf: "plugin_free (doc example_engine)" by code_simp
  have en: "map tabList (findPickerEntries (doc example_engine)) = [1]" by code_simp
  have wf': "wf_engine activated_example" by code_simp
  have iib': "ids_imply_bound (doc activated_example)" by code_simp
  have sf': "selector_safe_ids (doc activated_example)" by code_simp
  have pf': "\<not> plugin_free (doc activated_example)" by code_simp
  from scan_twice_one_tab_no_panel[OF wf iib sf] scan_twice_one_tab_no_panel[OF wf' iib' sf']
    wf iib sf pf en wf' iib' sf' pf'
  show ?thesis by blast
qed

text \<open>
  C8, as stated, fails on the example picker: after two scans its one matched tab list has one
  synthetic tab, and the document has no synthetic panel, where the claim asks for one.
\<close>

theorem scan_twice_creates_no_panel:
  "map tabList (findPickerEntries (doc example_engine)) = [1]
   \<and> length (synthetic_tabs 1 (doc (scanForPicker (scanForPicker example_engine)))) = 1
   \<and> length (synthetic_panels (doc (scanForPicker (scanForPicker example_engine)))) = 0"
  by code_simp

end
